theory Spec2Isabelle
  imports Complex_Main "HOL-Library.Signed_Division"
begin

section \<open>Iterator adaptors of namespace xstd: range, strided, zip\<close>

text \<open>
  The library is a set of C++ templates.  The embedding fixes the template
  parameters as follows.
  \<^item> The \<open>Incrementable\<close> of \<open>range_iterator\<close> is a machine integer type, signed
    or unsigned, of the width of \<open>int\<close> or wider.  Its values are integers inside
    the range of the type, and every operation of the source on them is
    computed in the type: an unsigned result wraps around, a signed result
    outside the range is undefined.  The type is a parameter of the operations
    of the range cursor, and so is \<open>std::ptrdiff_t\<close>, the type of their distance.
  \<^item> The offsets of iterators into a container, their distances and the
    strides are values of the \<open>difference_type\<close> of the container, modelled as
    \<^typ>\<open>int\<close>: the offsets of a traversal stay within the container.
  \<^item> The integer division \<open>/\<close> of C++ truncates towards zero and is undefined
    for a zero divisor; on offsets it is \<open>cpp_div\<close> below.
  \<^item> A \<open>std::tuple\<close> is a list.  A heterogeneous tuple is a list over the sum
    of its element types, and the generic lambda applied to its elements is
    one function on that sum.
  \<^item> \<open>assert\<close> that fails, an operation with undefined behaviour and an
    instantiation that the compiler rejects are values of type \<open>error\<close>.
\<close>

datatype error =
    AssertionFailed     \<comment> \<open>an \<open>assert\<close> of the source does not hold\<close>
  | DivisionByZero      \<comment> \<open>integer division by zero\<close>
  | OutOfBounds         \<comment> \<open>an iterator is dereferenced outside its container\<close>
  | IllFormed           \<comment> \<open>the template instantiation does not compile\<close>
  | SignedOverflow      \<comment> \<open>the result of a signed operation is outside its type\<close>

definition cpp_div :: "int \<Rightarrow> int \<Rightarrow> error + int" where
  "cpp_div a b = (if b = 0 then Inl DivisionByZero else Inr (a sdiv b))"

subsection \<open>Machine integers\<close>

text \<open>
  An integer type is described by its signedness and its width.  \<open>arith\<close> gives
  the outcome of an operation of that type whose exact result is \<open>v\<close>: the value
  itself when the type holds it, otherwise the value modulo \<open>2 ^ bits\<close> for an
  unsigned type and undefined behaviour for a signed one.  \<open>convert\<close> is the
  conversion of a value to the type: the value itself when the type holds it,
  and the value modulo \<open>2 ^ bits\<close> otherwise, for either signedness.
\<close>

record int_type =
  is_signed :: bool
  bits :: nat

definition int_min :: "int_type \<Rightarrow> int" where
  "int_min ty = (if is_signed ty then - (2 ^ (bits ty - 1)) else 0)"

definition int_max :: "int_type \<Rightarrow> int" where
  "int_max ty = (if is_signed ty then 2 ^ (bits ty - 1) - 1 else 2 ^ bits ty - 1)"

definition representable :: "int_type \<Rightarrow> int \<Rightarrow> bool" where
  "representable ty v = (int_min ty \<le> v \<and> v \<le> int_max ty)"

definition arith :: "int_type \<Rightarrow> int \<Rightarrow> error + int" where
  "arith ty v =
     (if representable ty v then Inr v
      else if is_signed ty then Inl SignedOverflow
      else Inr (v mod 2 ^ bits ty))"

definition int_add :: "int_type \<Rightarrow> int \<Rightarrow> int \<Rightarrow> error + int" where
  "int_add ty a b = arith ty (a + b)"

definition int_sub :: "int_type \<Rightarrow> int \<Rightarrow> int \<Rightarrow> error + int" where
  "int_sub ty a b = arith ty (a - b)"

definition int_div :: "int_type \<Rightarrow> int \<Rightarrow> int \<Rightarrow> error + int" where
  "int_div ty a b = (if b = 0 then Inl DivisionByZero else arith ty (a sdiv b))"

definition convert :: "int_type \<Rightarrow> int \<Rightarrow> int" where
  "convert ty v =
     (if representable ty v then v
      else if is_signed ty
      then (v + 2 ^ (bits ty - 1)) mod 2 ^ bits ty - 2 ^ (bits ty - 1)
      else v mod 2 ^ bits ty)"

definition int32 :: int_type where
  "int32 = \<lparr>is_signed = True, bits = 32\<rparr>"

definition uint32 :: int_type where
  "uint32 = \<lparr>is_signed = False, bits = 32\<rparr>"

definition int64 :: int_type where
  "int64 = \<lparr>is_signed = True, bits = 64\<rparr>"

subsection \<open>The loop of a range-based \<open>for\<close> statement\<close>

text \<open>
  \<^verbatim>\<open>for (auto it = first; it != last; ++it) { body(*it); }\<close>

  The views of this library are made for this statement (see the examples in
  the comments of \<open>range\<close>, \<open>strided\<close> and \<open>zip\<close>).  The loop is
  parameterised by the cursor's \<open>operator!=\<close>, \<open>operator++\<close> and
  \<open>operator*\<close> and returns the dereferenced values in order.  It need not
  terminate: not returning is \<open>None\<close>.
\<close>

partial_function (option) traverse ::
  "('c \<Rightarrow> 'c \<Rightarrow> error + bool) \<Rightarrow> ('c \<Rightarrow> 'c) \<Rightarrow> ('c \<Rightarrow> error + 'v) \<Rightarrow> 'c \<Rightarrow> 'c
     \<Rightarrow> (error + 'v list) option" where
  "traverse ne incr deref cur fin =
     (case ne cur fin of
        Inl e \<Rightarrow> Some (Inl e)
      | Inr b \<Rightarrow>
          if b then
            (case deref cur of
               Inl e \<Rightarrow> Some (Inl e)
             | Inr v \<Rightarrow>
                 Option.bind (traverse ne incr deref (incr cur) fin)
                   (\<lambda>r. Some (case r of Inl e \<Rightarrow> Inl e | Inr vs \<Rightarrow> Inr (v # vs))))
          else Some (Inr []))"

subsection \<open>range.hpp\<close>

record range_iterator =
  r_value :: int   \<comment> \<open>\<open>value_\<close>\<close>
  r_step :: int    \<comment> \<open>\<open>step_\<close>\<close>

text \<open>\<open>operator++\<close>: \<^verbatim>\<open>value_ += step_\<close>, computed in \<open>Incrementable\<close>.\<close>

definition range_iterator_incr :: "int_type \<Rightarrow> range_iterator \<Rightarrow> error + range_iterator" where
  "range_iterator_incr ty x =
     (case int_add ty (r_value x) (r_step x) of
        Inl e \<Rightarrow> Inl e
      | Inr v \<Rightarrow> Inr (x\<lparr>r_value := v\<rparr>))"

text \<open>\<open>operator*\<close> returns the value by copy.\<close>

definition range_iterator_deref :: "range_iterator \<Rightarrow> int" where
  "range_iterator_deref x = r_value x"

text \<open>
  \<open>operator==\<close>:
  \<^verbatim>\<open>assert(x.step_ == y.step_);
  return x.step_ > 0 ? (y.value_ < x.value_) || (y.value_ == x.value_) : (x.value_ < y.value_);\<close>
\<close>

definition range_iterator_eq :: "range_iterator \<Rightarrow> range_iterator \<Rightarrow> error + bool" where
  "range_iterator_eq x y =
     (if r_step x = r_step y then
        Inr (if r_step x > 0 then (r_value y < r_value x) \<or> (r_value y = r_value x)
             else (r_value x < r_value y))
      else Inl AssertionFailed)"

text \<open>\<open>operator!=\<close>: \<^verbatim>\<open>return not(x == y);\<close>\<close>

definition range_iterator_ne :: "range_iterator \<Rightarrow> range_iterator \<Rightarrow> error + bool" where
  "range_iterator_ne x y =
     (case range_iterator_eq x y of Inl e \<Rightarrow> Inl e | Inr b \<Rightarrow> Inr (\<not> b))"

text \<open>\<open>operator<\<close>: \<^verbatim>\<open>return x.value_ < y.value_;\<close>\<close>

definition range_iterator_less :: "range_iterator \<Rightarrow> range_iterator \<Rightarrow> bool" where
  "range_iterator_less x y = (r_value x < r_value y)"

text \<open>
  \<open>operator-\<close>:
  \<^verbatim>\<open>assert(x.step_ == y.step_);
  return (x.value_ - y.value_) / x.step_;\<close>
  The difference and the quotient are computed in \<open>Incrementable\<close>, and the
  quotient is converted to the \<open>difference_type\<close>, which is \<open>std::ptrdiff_t\<close>.
\<close>

definition range_iterator_minus ::
  "int_type \<Rightarrow> int_type \<Rightarrow> range_iterator \<Rightarrow> range_iterator \<Rightarrow> error + int" where
  "range_iterator_minus ty ptrdiff_t x y =
     (if r_step x = r_step y then
        (case int_sub ty (r_value x) (r_value y) of
           Inl e \<Rightarrow> Inl e
         | Inr d \<Rightarrow>
             (case int_div ty d (r_step x) of
                Inl e \<Rightarrow> Inl e
              | Inr q \<Rightarrow> Inr (convert ptrdiff_t q)))
      else Inl AssertionFailed)"

record range_proxy =
  rp_first :: int   \<comment> \<open>\<open>first_\<close>\<close>
  rp_last :: int    \<comment> \<open>\<open>last_\<close>\<close>
  rp_step :: int    \<comment> \<open>\<open>step_\<close>\<close>

definition range_proxy_begin :: "range_proxy \<Rightarrow> range_iterator" where
  "range_proxy_begin p = \<lparr>r_value = rp_first p, r_step = rp_step p\<rparr>"

definition range_proxy_end :: "range_proxy \<Rightarrow> range_iterator" where
  "range_proxy_end p = \<lparr>r_value = rp_last p, r_step = rp_step p\<rparr>"

text \<open>The three-argument \<open>range(first, last, step)\<close>.\<close>

definition xstd_range :: "int \<Rightarrow> int \<Rightarrow> int \<Rightarrow> range_proxy" where
  "xstd_range first lst step = \<lparr>rp_first = first, rp_last = lst, rp_step = step\<rparr>"

text \<open>
  \<^verbatim>\<open>for (auto i : range(first, last, step))\<close>, that is
  \<^verbatim>\<open>for (auto it = p.begin(); it != p.end(); ++it) { auto i = *it; ... }\<close>,
  collects the values \<open>i\<close>.  The increment of a range cursor can be undefined,
  so this loop has a branch for it.  It need not terminate: not returning is
  \<open>None\<close>.
\<close>

partial_function (option) range_for ::
  "int_type \<Rightarrow> range_iterator \<Rightarrow> range_iterator \<Rightarrow> (error + int list) option" where
  "range_for ty cur fin =
     (case range_iterator_ne cur fin of
        Inl e \<Rightarrow> Some (Inl e)
      | Inr b \<Rightarrow>
          if b then
            (case range_iterator_incr ty cur of
               Inl e \<Rightarrow> Some (Inl e)
             | Inr nxt \<Rightarrow>
                 Option.bind (range_for ty nxt fin)
                   (\<lambda>r. Some (case r of Inl e \<Rightarrow> Inl e
                                | Inr vs \<Rightarrow> Inr (range_iterator_deref cur # vs))))
          else Some (Inr []))"

definition range_elements :: "int_type \<Rightarrow> range_proxy \<Rightarrow> (error + int list) option" where
  "range_elements ty p = range_for ty (range_proxy_begin p) (range_proxy_end p)"

subsection \<open>Iterators of the standard containers\<close>

text \<open>
  The adaptors wrap iterators of caller-owned sequences.  Memory is explicit:
  a store maps the identity of a container to its contents, and an iterator
  of a \<open>std::vector\<close> is the container's identity with an offset into it, as a
  pointer is.  Reading through an iterator outside its container is undefined.
\<close>

type_synonym 'a store = "nat \<Rightarrow> 'a list"

record vec_iterator =
  cont :: nat
  pos :: int

definition vec_begin :: "nat \<Rightarrow> vec_iterator" where
  "vec_begin c = \<lparr>cont = c, pos = 0\<rparr>"

definition vec_end :: "'a store \<Rightarrow> nat \<Rightarrow> vec_iterator" where
  "vec_end store c = \<lparr>cont = c, pos = int (length (store c))\<rparr>"

text \<open>\<open>std::advance(it, n)\<close> and \<open>std::distance(first, last)\<close> on random-access iterators.\<close>

definition vec_advance :: "vec_iterator \<Rightarrow> int \<Rightarrow> vec_iterator" where
  "vec_advance it n = it\<lparr>pos := pos it + n\<rparr>"

definition vec_distance :: "vec_iterator \<Rightarrow> vec_iterator \<Rightarrow> int" where
  "vec_distance first lst = pos lst - pos first"

definition vec_incr :: "vec_iterator \<Rightarrow> vec_iterator" where
  "vec_incr it = vec_advance it 1"

definition vec_eq :: "vec_iterator \<Rightarrow> vec_iterator \<Rightarrow> bool" where
  "vec_eq a b = (cont a = cont b \<and> pos a = pos b)"

definition vec_less :: "vec_iterator \<Rightarrow> vec_iterator \<Rightarrow> bool" where
  "vec_less a b = (pos a < pos b)"

definition vec_minus :: "vec_iterator \<Rightarrow> vec_iterator \<Rightarrow> int" where
  "vec_minus a b = pos a - pos b"

definition vec_deref :: "'a store \<Rightarrow> vec_iterator \<Rightarrow> error + 'a" where
  "vec_deref store it =
     (if 0 \<le> pos it \<and> pos it < int (length (store (cont it)))
      then Inr (store (cont it) ! nat (pos it)) else Inl OutOfBounds)"

subsection \<open>strided.hpp\<close>

record strided_iterator =
  s_iterator :: vec_iterator   \<comment> \<open>\<open>iterator_\<close>\<close>
  s_stride :: int              \<comment> \<open>\<open>stride_\<close>\<close>

text \<open>The constructor: \<^verbatim>\<open>assert(stride != 0);\<close>\<close>

definition strided_iterator_new :: "vec_iterator \<Rightarrow> int \<Rightarrow> error + strided_iterator" where
  "strided_iterator_new iterator stride =
     (if stride \<noteq> 0 then Inr \<lparr>s_iterator = iterator, s_stride = stride\<rparr>
      else Inl AssertionFailed)"

text \<open>\<open>operator++\<close>: \<^verbatim>\<open>std::advance(iterator_, stride_);\<close>\<close>

definition strided_iterator_incr :: "strided_iterator \<Rightarrow> strided_iterator" where
  "strided_iterator_incr x = x\<lparr>s_iterator := vec_advance (s_iterator x) (s_stride x)\<rparr>"

text \<open>\<open>operator*\<close>: \<^verbatim>\<open>return *iterator_;\<close>\<close>

definition strided_iterator_deref :: "'a store \<Rightarrow> strided_iterator \<Rightarrow> error + 'a" where
  "strided_iterator_deref store x = vec_deref store (s_iterator x)"

text \<open>
  \<open>operator-\<close>:
  \<^verbatim>\<open>assert(x.stride_ == y.stride_);
  return (std::distance(y.iterator_, x.iterator_) / x.stride_);\<close>
\<close>

definition strided_iterator_minus :: "strided_iterator \<Rightarrow> strided_iterator \<Rightarrow> error + int" where
  "strided_iterator_minus x y =
     (if s_stride x = s_stride y
      then cpp_div (vec_distance (s_iterator y) (s_iterator x)) (s_stride x)
      else Inl AssertionFailed)"

text \<open>
  \<open>operator==\<close>:
  \<^verbatim>\<open>assert(x.stride_ == y.stride_);
  return ((x - y) == 0);\<close>
\<close>

definition strided_iterator_eq :: "strided_iterator \<Rightarrow> strided_iterator \<Rightarrow> error + bool" where
  "strided_iterator_eq x y =
     (if s_stride x = s_stride y
      then (case strided_iterator_minus x y of Inl e \<Rightarrow> Inl e | Inr d \<Rightarrow> Inr (d = 0))
      else Inl AssertionFailed)"

text \<open>
  \<open>operator!=\<close>:
  \<^verbatim>\<open>assert(x.stride_ == y.stride_);
  return not(x == y);\<close>
\<close>

definition strided_iterator_ne :: "strided_iterator \<Rightarrow> strided_iterator \<Rightarrow> error + bool" where
  "strided_iterator_ne x y =
     (if s_stride x = s_stride y
      then (case strided_iterator_eq x y of Inl e \<Rightarrow> Inl e | Inr b \<Rightarrow> Inr (\<not> b))
      else Inl AssertionFailed)"

text \<open>
  \<open>operator<\<close>:
  \<^verbatim>\<open>assert(x.stride_ == y.stride_);
  return ((std::distance(x.iterator_, y.iterator_) / x.stride_) > 0);\<close>
\<close>

definition strided_iterator_less :: "strided_iterator \<Rightarrow> strided_iterator \<Rightarrow> error + bool" where
  "strided_iterator_less x y =
     (if s_stride x = s_stride y
      then (case cpp_div (vec_distance (s_iterator x) (s_iterator y)) (s_stride x) of
              Inl e \<Rightarrow> Inl e | Inr q \<Rightarrow> Inr (q > 0))
      else Inl AssertionFailed)"

record strided_proxy =
  sp_first :: vec_iterator   \<comment> \<open>\<open>first_\<close>\<close>
  sp_last :: vec_iterator    \<comment> \<open>\<open>last_\<close>\<close>
  sp_stride :: int           \<comment> \<open>\<open>stride_\<close>\<close>

definition strided_proxy_begin :: "strided_proxy \<Rightarrow> error + strided_iterator" where
  "strided_proxy_begin p = strided_iterator_new (sp_first p) (sp_stride p)"

definition strided_proxy_end :: "strided_proxy \<Rightarrow> error + strided_iterator" where
  "strided_proxy_end p = strided_iterator_new (sp_last p) (sp_stride p)"

text \<open>\<open>size()\<close>: \<^verbatim>\<open>return std::distance(first_, last_) / stride_;\<close>\<close>

definition strided_proxy_size :: "strided_proxy \<Rightarrow> error + int" where
  "strided_proxy_size p = cpp_div (vec_distance (sp_first p) (sp_last p)) (sp_stride p)"

text \<open>
  \<open>strided(first, last, stride)\<close>:
  \<^verbatim>\<open>assert(stride != 0);
  return {first, last, stride};\<close>
\<close>

definition strided :: "vec_iterator \<Rightarrow> vec_iterator \<Rightarrow> int \<Rightarrow> error + strided_proxy" where
  "strided first lst stride =
     (if stride \<noteq> 0 then Inr \<lparr>sp_first = first, sp_last = lst, sp_stride = stride\<rparr>
      else Inl AssertionFailed)"

text \<open>
  \<open>strided(content, stride)\<close>:
  \<^verbatim>\<open>return strided(std::begin(content), std::end(content), stride);\<close>
\<close>

definition strided_container :: "'a store \<Rightarrow> nat \<Rightarrow> int \<Rightarrow> error + strided_proxy" where
  "strided_container store content stride =
     strided (vec_begin content) (vec_end store content) stride"

text \<open>
  The loop \<^verbatim>\<open>for (auto it = p.begin(); it != p.end(); ++it)\<close> over a strided view,
  with what the body reads from the cursor as a parameter: the element
  (\<open>strided_elements\<close>) or the offset the cursor stands at (\<open>strided_positions\<close>).
\<close>

definition strided_loop ::
  "(strided_iterator \<Rightarrow> error + 'v) \<Rightarrow> strided_proxy \<Rightarrow> (error + 'v list) option" where
  "strided_loop deref p =
     (case strided_proxy_begin p of
        Inl e \<Rightarrow> Some (Inl e)
      | Inr b \<Rightarrow>
          (case strided_proxy_end p of
             Inl e \<Rightarrow> Some (Inl e)
           | Inr e \<Rightarrow> traverse strided_iterator_ne strided_iterator_incr deref b e))"

definition strided_elements :: "'a store \<Rightarrow> strided_proxy \<Rightarrow> (error + 'a list) option" where
  "strided_elements store p = strided_loop (strided_iterator_deref store) p"

definition strided_positions :: "strided_proxy \<Rightarrow> (error + int list) option" where
  "strided_positions p = strided_loop (\<lambda>x. Inr (pos (s_iterator x))) p"

subsection \<open>The tuple algorithms of zip.hpp\<close>

text \<open>
  \<open>all_of(t, p)\<close> and \<open>any_of(t, p)\<close> are the fold expressions
  \<^verbatim>\<open>(p(xs) && ...)\<close> and \<^verbatim>\<open>(p(xs) || ...)\<close> over the elements.
\<close>

primrec all_of :: "'a list \<Rightarrow> ('a \<Rightarrow> bool) \<Rightarrow> bool" where
  "all_of [] p = True"
| "all_of (x # xs) p = (p x \<and> all_of xs p)"

primrec any_of :: "'a list \<Rightarrow> ('a \<Rightarrow> bool) \<Rightarrow> bool" where
  "any_of [] p = False"
| "any_of (x # xs) p = (p x \<or> any_of xs p)"

text \<open>
  \<open>detail::transform_impl(inputs, pred, index_sequence<Is...>)\<close> builds the tuple
  \<^verbatim>\<open>{pred(std::get<Is>(inputs))...}\<close>, and \<open>transform(inputs, function)\<close> calls
  it with the indices \<open>0, ..., sizeof...(Ts) - 1\<close>.
\<close>

definition transform_impl :: "'a list \<Rightarrow> ('a \<Rightarrow> 'b) \<Rightarrow> nat list \<Rightarrow> 'b list" where
  "transform_impl inputs pred is = map (\<lambda>i. pred (inputs ! i)) is"

definition transform :: "'a list \<Rightarrow> ('a \<Rightarrow> 'b) \<Rightarrow> 'b list" where
  "transform inputs function = transform_impl inputs function [0..<length inputs]"

text \<open>
  The two-tuple \<open>detail::transform_impl(t1, t2, pred, index_sequence<Is...>)\<close>:
  \<^verbatim>\<open>return std::tuple<std::result_of_t<BinaryPredicate(Ts1,Ts2)>...>
             {pred(std::get<Is>(t1),std::get<Is>(t2))...};\<close>
  The result type expands the packs \<open>Ts1\<close> and \<open>Ts2\<close> together, which the
  language accepts only for packs of one length, and \<open>std::get<I>\<close> accepts only
  an index below the size of its tuple.  Otherwise the call does not compile.
  \<open>transform(t1, t2, function)\<close> passes the indices \<open>0, ..., sizeof...(Ts1) - 1\<close>:
  \<^verbatim>\<open>return detail::transform_impl(t1,t2, function, std::make_index_sequence<sizeof...(Ts1)>{});\<close>
\<close>

definition transform_impl2 ::
  "'a list \<Rightarrow> 'b list \<Rightarrow> ('a \<Rightarrow> 'b \<Rightarrow> 'c) \<Rightarrow> nat list \<Rightarrow> error + 'c list" where
  "transform_impl2 t1 t2 pred is =
     (if length t1 = length t2 \<and> list_all (\<lambda>i. i < length t1 \<and> i < length t2) is
      then Inr (map (\<lambda>i. pred (t1 ! i) (t2 ! i)) is)
      else Inl IllFormed)"

definition transform2 :: "'a list \<Rightarrow> 'b list \<Rightarrow> ('a \<Rightarrow> 'b \<Rightarrow> 'c) \<Rightarrow> error + 'c list" where
  "transform2 t1 t2 function = transform_impl2 t1 t2 function [0..<length t1]"

text \<open>
  The two-tuple \<open>all_of\<close> and \<open>any_of\<close>:
  \<^verbatim>\<open>auto result = xstd::transform(t1, t2, p);
  return xstd::all_of(result, [](auto&& val){return val;});\<close>
\<close>

definition all_of2 :: "'a list \<Rightarrow> 'b list \<Rightarrow> ('a \<Rightarrow> 'b \<Rightarrow> bool) \<Rightarrow> error + bool" where
  "all_of2 t1 t2 p =
     (case transform2 t1 t2 p of
        Inl e \<Rightarrow> Inl e
      | Inr result \<Rightarrow> Inr (all_of result (\<lambda>val. val)))"

definition any_of2 :: "'a list \<Rightarrow> 'b list \<Rightarrow> ('a \<Rightarrow> 'b \<Rightarrow> bool) \<Rightarrow> error + bool" where
  "any_of2 t1 t2 p =
     (case transform2 t1 t2 p of
        Inl e \<Rightarrow> Inl e
      | Inr result \<Rightarrow> Inr (any_of result (\<lambda>val. val)))"

text \<open>
  \<open>min(t)\<close> is \<open>std::min\<close> of the initializer list of the elements, which keeps
  the first smallest element scanning from the left.  For the empty tuple
  \<open>std::common_type_t<>\<close> names no type and the call does not compile.
\<close>

definition xstd_min :: "int list \<Rightarrow> error + int" where
  "xstd_min t =
     (case t of
        [] \<Rightarrow> Inl IllFormed
      | x # xs \<Rightarrow> Inr (fold (\<lambda>v smallest. if v < smallest then v else smallest) xs x))"

text \<open>
  \<open>for_each(t, p)\<close> calls \<open>p\<close> on every element from left to right.  The
  functor takes the element by reference and may carry state, so in the model
  it maps the element and the state to the element and the state afterwards.
\<close>

primrec for_each :: "'a list \<Rightarrow> ('a \<Rightarrow> 's \<Rightarrow> 'a \<times> 's) \<Rightarrow> 's \<Rightarrow> 'a list \<times> 's" where
  "for_each [] p s = ([], s)"
| "for_each (x # xs) p s =
     (case p x s of (x', s') \<Rightarrow>
        (case for_each xs p s' of (xs', s'') \<Rightarrow> (x' # xs', s'')))"

text \<open>
  \<open>perform(t, index, action)\<close>:
  \<^verbatim>\<open>std::size_t current_index = 0;
  for_each(t, [action = std::move(action), index, &current_index](auto&& value){
      if (index == current_index){
          action(std::forward<decltype(value)>(value));
      }
      ++current_index;
  });\<close>
  The state of the functor is \<open>current_index\<close> with the state of the action.
\<close>

definition perform :: "'a list \<Rightarrow> nat \<Rightarrow> ('a \<Rightarrow> 's \<Rightarrow> 'a \<times> 's) \<Rightarrow> 's \<Rightarrow> 'a list \<times> 's" where
  "perform t index action s =
     (case for_each t
             (\<lambda>value (current_index, s).
                case (if index = current_index then action value s else (value, s)) of
                  (value', s') \<Rightarrow> (value', (current_index + 1, s')))
             (0, s)
      of (t', (current_index, s')) \<Rightarrow> (t', s'))"

text \<open>
  An action instrumented to record its calls: next to the state of the action
  it keeps the list of the elements it was called on.
\<close>

definition logged :: "('a \<Rightarrow> 's \<Rightarrow> 'a \<times> 's) \<Rightarrow> 'a \<Rightarrow> 'a list \<times> 's \<Rightarrow> 'a \<times> ('a list \<times> 's)" where
  "logged action value = (\<lambda>(calls, s).
     case action value s of (value', s') \<Rightarrow> (value', (calls @ [value], s')))"

subsection \<open>zip.hpp\<close>

text \<open>
  A \<open>zip_iterator<Iterators...>\<close> holds the tuple of its component iterators.
  The operators of the components (\<open>==\<close>, \<open><\<close>, \<open>-\<close>, \<open>++\<close>, \<open>*\<close>), which the
  generic lambdas of the source resolve per component type, are parameters.
\<close>

record 'i zip_iterator =
  z_iterators :: "'i list"   \<comment> \<open>\<open>iterators_\<close>\<close>

text \<open>\<open>operator++\<close>: \<^verbatim>\<open>xstd::for_each(iterators_, [](auto& iter) { iter++; });\<close>\<close>

definition zip_iterator_incr :: "('i \<Rightarrow> 'i) \<Rightarrow> 'i zip_iterator \<Rightarrow> 'i zip_iterator" where
  "zip_iterator_incr incr x =
     \<lparr>z_iterators = fst (for_each (z_iterators x) (\<lambda>iter u. (incr iter, u)) ())\<rparr>"

text \<open>
  \<open>operator*\<close>: \<^verbatim>\<open>return xstd::transform(iterators_, [](auto iter) -> decltype(*iter)& { return *iter; });\<close>
  It is undefined as soon as one component cannot be dereferenced.
\<close>

primrec collect :: "(error + 'v) list \<Rightarrow> error + 'v list" where
  "collect [] = Inr []"
| "collect (r # rs) =
     (case r of
        Inl e \<Rightarrow> Inl e
      | Inr v \<Rightarrow> (case collect rs of Inl e \<Rightarrow> Inl e | Inr vs \<Rightarrow> Inr (v # vs)))"

definition zip_iterator_deref :: "('i \<Rightarrow> error + 'v) \<Rightarrow> 'i zip_iterator \<Rightarrow> error + 'v list" where
  "zip_iterator_deref deref x = collect (transform (z_iterators x) (\<lambda>iter. deref iter))"

text \<open>
  \<open>operator==\<close>:
  \<^verbatim>\<open>return xstd::any_of(x.iterators_, y.iterators_, [](const auto& a, const auto& b) {
      return (a == b);  // We use any_of to stop at first match
  });\<close>
\<close>

definition zip_iterator_eq ::
  "('i \<Rightarrow> 'i \<Rightarrow> bool) \<Rightarrow> 'i zip_iterator \<Rightarrow> 'i zip_iterator \<Rightarrow> error + bool" where
  "zip_iterator_eq eq x y = any_of2 (z_iterators x) (z_iterators y) (\<lambda>a b. eq a b)"

text \<open>\<open>operator!=\<close>: \<^verbatim>\<open>return not(x == y);\<close>\<close>

definition zip_iterator_ne ::
  "('i \<Rightarrow> 'i \<Rightarrow> bool) \<Rightarrow> 'i zip_iterator \<Rightarrow> 'i zip_iterator \<Rightarrow> error + bool" where
  "zip_iterator_ne eq x y =
     (case zip_iterator_eq eq x y of Inl e \<Rightarrow> Inl e | Inr b \<Rightarrow> Inr (\<not> b))"

text \<open>
  \<open>operator<\<close>:
  \<^verbatim>\<open>return xstd::all_of(x.iterators_, y.iterators_, [](const auto& a, const auto& b) { return (a < b); });\<close>
\<close>

definition zip_iterator_less ::
  "('i \<Rightarrow> 'i \<Rightarrow> bool) \<Rightarrow> 'i zip_iterator \<Rightarrow> 'i zip_iterator \<Rightarrow> error + bool" where
  "zip_iterator_less lt x y = all_of2 (z_iterators x) (z_iterators y) (\<lambda>a b. lt a b)"

text \<open>
  \<open>operator-\<close>:
  \<^verbatim>\<open>auto diff_tuple =
      xstd::transform(x.iterators_, y.iterators_, [](const auto& a, const auto& b) { return a - b; });
  return xstd::min(diff_tuple);  // Return minimum distance\<close>
\<close>

definition zip_iterator_minus ::
  "('i \<Rightarrow> 'i \<Rightarrow> int) \<Rightarrow> 'i zip_iterator \<Rightarrow> 'i zip_iterator \<Rightarrow> error + int" where
  "zip_iterator_minus diff x y =
     (case transform2 (z_iterators x) (z_iterators y) (\<lambda>a b. diff a b) of
        Inl e \<Rightarrow> Inl e
      | Inr diff_tuple \<Rightarrow> xstd_min diff_tuple)"

record 'i zip_proxy =
  zp_first :: "'i zip_iterator"   \<comment> \<open>\<open>first_\<close>\<close>
  zp_last :: "'i zip_iterator"    \<comment> \<open>\<open>last_\<close>\<close>

definition zip_proxy_begin :: "'i zip_proxy \<Rightarrow> 'i zip_iterator" where
  "zip_proxy_begin p = zp_first p"

definition zip_proxy_end :: "'i zip_proxy \<Rightarrow> 'i zip_iterator" where
  "zip_proxy_end p = zp_last p"

text \<open>
  \<open>zip(args...)\<close>:
  \<^verbatim>\<open>return zip_proxy(zip_iterator(std::begin(args)...), zip_iterator(std::end(args)...));\<close>
  The arguments are containers of the store.
\<close>

definition xstd_zip :: "'a store \<Rightarrow> nat list \<Rightarrow> vec_iterator zip_proxy" where
  "xstd_zip store args =
     \<lparr>zp_first = \<lparr>z_iterators = map vec_begin args\<rparr>,
      zp_last = \<lparr>z_iterators = map (vec_end store) args\<rparr>\<rparr>"

text \<open>
  The loop \<^verbatim>\<open>for (auto it = p.begin(); it != p.end(); ++it)\<close> over a zip view of
  containers, with what the body reads from each component as a parameter:
  the element (\<open>zip_elements\<close>) or the offset (\<open>zip_positions\<close>).
\<close>

definition zip_loop ::
  "(vec_iterator \<Rightarrow> error + 'v) \<Rightarrow> vec_iterator zip_proxy \<Rightarrow> (error + 'v list list) option" where
  "zip_loop deref p =
     traverse (zip_iterator_ne vec_eq) (zip_iterator_incr vec_incr) (zip_iterator_deref deref)
       (zip_proxy_begin p) (zip_proxy_end p)"

definition zip_elements :: "'a store \<Rightarrow> vec_iterator zip_proxy \<Rightarrow> (error + 'a list list) option" where
  "zip_elements store p = zip_loop (vec_deref store) p"

definition zip_positions :: "vec_iterator zip_proxy \<Rightarrow> (error + int list list) option" where
  "zip_positions p = zip_loop (\<lambda>iter. Inr (pos iter)) p"

section \<open>Properties\<close>

subsection \<open>The loop\<close>

text \<open>
  A run of the loop over the cursors \<open>c 0\<close>, \<open>c 1\<close>, ..., \<open>c n\<close>: the first
  \<open>n\<close> differ from the end cursor and can be dereferenced, the last one
  compares equal to it.
\<close>

lemma traverse_steps:
  assumes "\<And>k. k < n \<Longrightarrow> ne (c k) fin = Inr True"
    and "\<And>k. k < n \<Longrightarrow> deref (c k) = Inr (v k)"
    and "\<And>k. k < n \<Longrightarrow> incr (c k) = c (Suc k)"
    and "ne (c n) fin = Inr False"
  shows "traverse ne incr deref (c 0) fin = Some (Inr (map v [0..<n]))"
  using assms
proof (induction n arbitrary: c v)
  case 0
  then show ?case by (subst traverse.simps) simp
next
  case (Suc n)
  have rest: "traverse ne incr deref (c (Suc 0)) fin = Some (Inr (map (\<lambda>k. v (Suc k)) [0..<n]))"
    using Suc.IH [of "\<lambda>k. c (Suc k)" "\<lambda>k. v (Suc k)"] Suc.prems by simp
  have shift: "map v [0..<Suc n] = v 0 # map (\<lambda>k. v (Suc k)) [0..<n]"
    by (simp add: upt_conv_Cons map_Suc_upt [symmetric] del: upt_Suc)
  have "traverse ne incr deref (c 0) fin
      = Option.bind (traverse ne incr deref (c (Suc 0)) fin)
          (\<lambda>r. Some (case r of Inl e \<Rightarrow> Inl e | Inr vs \<Rightarrow> Inr (v 0 # vs)))"
    using Suc.prems(1) [of 0] Suc.prems(2) [of 0] Suc.prems(3) [of 0]
    by (subst traverse.simps) simp
  then show ?case
    by (simp only: rest shift) simp
qed


subsection \<open>Range\<close>

text \<open>
  With \<open>n\<close> the ceiling of \<open>d / step\<close>, the multiples \<open>k * step\<close> for \<open>k < n\<close>
  stay below \<open>d\<close>, and \<open>n * step\<close> reaches it.
\<close>

lemma ceil_steps_below:
  assumes "0 < step" and "k < nat \<lceil>real_of_int d / real_of_int step\<rceil>"
  shows "int k * step < d"
proof -
  have "int k < \<lceil>real_of_int d / real_of_int step\<rceil>"
    using assms(2) by simp
  then have "real_of_int (int k) < real_of_int d / real_of_int step"
    by (simp add: less_ceiling_iff)
  then have "real_of_int (int k) * real_of_int step < real_of_int d"
    using assms(1) by (simp add: pos_less_divide_eq)
  then have "real_of_int (int k * step) < real_of_int d"
    by simp
  then show ?thesis
    by (simp only: of_int_less_iff)
qed

lemma ceil_steps_above:
  assumes "0 < step"
  shows "d \<le> int (nat \<lceil>real_of_int d / real_of_int step\<rceil>) * step"
proof -
  define n where "n = nat \<lceil>real_of_int d / real_of_int step\<rceil>"
  have "\<lceil>real_of_int d / real_of_int step\<rceil> \<le> int n"
    by (simp add: n_def)
  then have "real_of_int \<lceil>real_of_int d / real_of_int step\<rceil> \<le> real_of_int (int n)"
    by (simp only: of_int_le_iff)
  moreover have "real_of_int d / real_of_int step \<le> real_of_int \<lceil>real_of_int d / real_of_int step\<rceil>"
    by (rule le_of_int_ceiling)
  ultimately have "real_of_int d / real_of_int step \<le> real_of_int (int n)"
    by (rule order_trans [rotated])
  then have "real_of_int d \<le> real_of_int (int n) * real_of_int step"
    using assms by (simp add: pos_divide_le_eq)
  then have "real_of_int d \<le> real_of_int (int n * step)"
    by simp
  then show ?thesis
    unfolding n_def [symmetric] by (simp only: of_int_le_iff)
qed

text \<open>
  An operation whose exact result the type holds returns that result, and the
  values a type holds form an interval.
\<close>

lemma arith_representable:
  assumes "representable ty v"
  shows "arith ty v = Inr v"
  using assms by (simp add: arith_def)

lemma representable_between:
  assumes "representable ty a" and "representable ty b" and "a \<le> v" and "v \<le> b"
  shows "representable ty v"
  using assms by (simp add: representable_def)

lemma range_iterator_incr_representable:
  assumes "representable ty (r_value x + r_step x)"
  shows "range_iterator_incr ty x = Inr (x\<lparr>r_value := r_value x + r_step x\<rparr>)"
  using assms by (simp add: range_iterator_incr_def int_add_def arith_representable)

text \<open>
  A run of the loop over the range cursors \<open>c 0\<close>, \<open>c 1\<close>, ..., \<open>c n\<close>: the first
  \<open>n\<close> differ from the end cursor and can be incremented, the last one compares
  equal to it.
\<close>

lemma range_for_steps:
  assumes "\<And>k. k < n \<Longrightarrow> range_iterator_ne (c k) fin = Inr True"
    and "\<And>k. k < n \<Longrightarrow> range_iterator_incr ty (c k) = Inr (c (Suc k))"
    and "range_iterator_ne (c n) fin = Inr False"
  shows "range_for ty (c 0) fin = Some (Inr (map (\<lambda>k. range_iterator_deref (c k)) [0..<n]))"
  using assms
proof (induction n arbitrary: c)
  case 0
  then show ?case by (subst range_for.simps) simp
next
  case (Suc n)
  have rest: "range_for ty (c (Suc 0)) fin
      = Some (Inr (map (\<lambda>k. range_iterator_deref (c (Suc k))) [0..<n]))"
    using Suc.IH [of "\<lambda>k. c (Suc k)"] Suc.prems by simp
  have shift: "map (\<lambda>k. range_iterator_deref (c k)) [0..<Suc n]
      = range_iterator_deref (c 0) # map (\<lambda>k. range_iterator_deref (c (Suc k))) [0..<n]"
    by (simp add: upt_conv_Cons map_Suc_upt [symmetric] del: upt_Suc)
  have "range_for ty (c 0) fin
      = Option.bind (range_for ty (c (Suc 0)) fin)
          (\<lambda>r. Some (case r of Inl e \<Rightarrow> Inl e | Inr vs \<Rightarrow> Inr (range_iterator_deref (c 0) # vs)))"
    using Suc.prems(1) [of 0] Suc.prems(2) [of 0]
    by (subst range_for.simps) simp
  then show ?case
    by (simp only: rest shift) simp
qed

text \<open>
  The loop over \<open>range(first, last, step)\<close> with a positive step, when the type
  holds \<open>first\<close> and the value the cursor stops at, the first value of the
  progression that is not below \<open>last\<close>.
\<close>

lemma range_run:
  assumes "0 < step"
    and "representable ty first"
    and "representable ty (first + int (nat \<lceil>real_of_int (lst - first) / real_of_int step\<rceil>) * step)"
  shows "range_elements ty (xstd_range first lst step)
       = Some (Inr (map (\<lambda>i. first + int i * step)
                     [0..<nat \<lceil>real_of_int (lst - first) / real_of_int step\<rceil>]))"
proof -
  define n where "n = nat \<lceil>real_of_int (lst - first) / real_of_int step\<rceil>"
  define c where "c = (\<lambda>k. \<lparr>r_value = first + int k * step, r_step = step\<rparr>)"
  have below: "first + int k * step < lst" if "k < n" for k
    using ceil_steps_below [OF assms(1), of k "lst - first"] that by (simp add: n_def)
  have above: "lst \<le> first + int n * step"
    using ceil_steps_above [OF assms(1), of "lst - first"] by (simp add: n_def)
  have fits: "representable ty (first + int k * step)" if "k \<le> n" for k
  proof (rule representable_between [OF assms(2)])
    show "representable ty (first + int n * step)"
      using assms(3) by (simp only: n_def)
    show "first \<le> first + int k * step"
      using assms(1) by simp
    have "int k * step \<le> int n * step"
      using that assms(1) by (intro mult_right_mono) simp_all
    then show "first + int k * step \<le> first + int n * step"
      by simp
  qed
  have "range_for ty (c 0) (range_proxy_end (xstd_range first lst step))
        = Some (Inr (map (\<lambda>k. range_iterator_deref (c k)) [0..<n]))"
  proof (rule range_for_steps)
    fix k assume "k < n"
    then show "range_iterator_ne (c k) (range_proxy_end (xstd_range first lst step)) = Inr True"
      using below [of k] assms(1)
      by (simp add: range_iterator_ne_def range_iterator_eq_def range_proxy_end_def xstd_range_def c_def)
  next
    fix k assume "k < n"
    then have "representable ty (first + int (Suc k) * step)"
      by (intro fits) simp
    then have "representable ty (r_value (c k) + r_step (c k))"
      by (simp add: c_def algebra_simps)
    then have "range_iterator_incr ty (c k) = Inr ((c k)\<lparr>r_value := r_value (c k) + r_step (c k)\<rparr>)"
      by (rule range_iterator_incr_representable)
    then show "range_iterator_incr ty (c k) = Inr (c (Suc k))"
      by (simp add: c_def algebra_simps)
  next
    show "range_iterator_ne (c n) (range_proxy_end (xstd_range first lst step)) = Inr False"
      using above assms(1)
      by (auto simp add: range_iterator_ne_def range_iterator_eq_def range_proxy_end_def xstd_range_def c_def)
  qed
  moreover have "c 0 = range_proxy_begin (xstd_range first lst step)"
    by (simp add: c_def range_proxy_begin_def xstd_range_def)
  moreover have "(\<lambda>k. range_iterator_deref (c k)) = (\<lambda>i. first + int i * step)"
    by (simp add: c_def range_iterator_deref_def)
  ultimately show ?thesis
    by (simp add: range_elements_def n_def)
qed

lemma ceil_quotient_pos:
  assumes "0 < step" and "0 < d"
  shows "0 < \<lceil>real_of_int d / real_of_int step\<rceil>"
  using assms by (simp add: less_ceiling_iff)

text \<open>
  Claim C3 as it is stated fails where the progression leaves the type before
  it reaches \<open>last\<close>.  For the 32-bit unsigned type, \<open>range(4294967294, 4294967295, 2)\<close>
  has \<open>first < last\<close> and \<open>step > 0\<close>, but the cursor wraps around from
  \<open>4294967294\<close> to \<open>0\<close>, stays even and never compares equal to the odd end value:
  the loop does not return, where the claim has it yield one element.  For the
  32-bit signed type, the increment of \<open>range(2147483646, 2147483647, 2)\<close> is
  undefined.
\<close>

theorem range_iteration_counterexample:
  "representable uint32 4294967294 \<and> representable uint32 4294967295 \<and> representable uint32 2
   \<and> (4294967294 :: int) < 4294967295 \<and> (0 :: int) < 2
   \<and> range_elements uint32 (xstd_range 4294967294 4294967295 2) = None
   \<and> representable int32 2147483646 \<and> representable int32 2147483647 \<and> representable int32 2
   \<and> (2147483646 :: int) < 2147483647
   \<and> range_elements int32 (xstd_range 2147483646 2147483647 2) = Some (Inl SignedOverflow)"
proof -
  define F where "F = \<lparr>r_value = 4294967295, r_step = 2\<rparr>"
  define Inv where
    "Inv = (\<lambda>cur :: range_iterator. r_step cur = 2 \<and> even (r_value cur) \<and> 0 \<le> r_value cur \<and> r_value cur < 4294967296)"
  have never: "\<not> (ty = uint32 \<and> fin = F \<and> Inv cur)"
    if "range_for ty cur fin = Some y" for ty cur fin y
  proof (rule range_for.raw_induct
      [where P = "\<lambda>ty cur fin y. \<not> (ty = uint32 \<and> fin = F \<and> Inv cur)", OF _ that])
    fix f :: "int_type \<Rightarrow> range_iterator \<Rightarrow> range_iterator \<Rightarrow> (error + int list) option"
    fix ty cur fin y
    assume IH: "\<And>ty cur fin y. f ty cur fin = Some y \<Longrightarrow> \<not> (ty = uint32 \<and> fin = F \<and> Inv cur)"
    assume body: "(case range_iterator_ne cur fin of
        Inl e \<Rightarrow> Some (Inl e)
      | Inr b \<Rightarrow>
          if b then
            (case range_iterator_incr ty cur of
               Inl e \<Rightarrow> Some (Inl e)
             | Inr nxt \<Rightarrow>
                 Option.bind (f ty nxt fin)
                   (\<lambda>r. Some (case r of Inl e \<Rightarrow> Inl e
                                | Inr vs \<Rightarrow> Inr (range_iterator_deref cur # vs))))
          else Some (Inr [])) = Some y"
    show "\<not> (ty = uint32 \<and> fin = F \<and> Inv cur)"
    proof
      assume h: "ty = uint32 \<and> fin = F \<and> Inv cur"
      then have cur: "r_step cur = 2" "even (r_value cur)" "0 \<le> r_value cur" "r_value cur < 4294967296"
        by (simp_all add: Inv_def)
      have "r_value cur \<noteq> 4294967295"
        using cur(2) by auto
      then have ne: "range_iterator_ne cur F = Inr True"
        using cur(1,4) by (simp add: range_iterator_ne_def range_iterator_eq_def F_def)
      define v where "v = (if r_value cur + 2 < 4294967296 then r_value cur + 2
                           else (r_value cur + 2) mod 4294967296)"
      have incr: "range_iterator_incr uint32 cur = Inr (cur\<lparr>r_value := v\<rparr>)"
        using cur(1,3,4)
        by (simp add: range_iterator_incr_def int_add_def arith_def representable_def int_min_def
            int_max_def uint32_def v_def)
      have "even v" "0 \<le> v" "v < 4294967296"
        using cur(2,3,4) by (simp_all add: v_def dvd_mod_iff)
      then have inv: "Inv (cur\<lparr>r_value := v\<rparr>)"
        using cur(1) by (simp add: Inv_def)
      from body obtain r where "f uint32 (cur\<lparr>r_value := v\<rparr>) F = Some r"
        using ne incr h by (auto simp add: bind_eq_Some_conv)
      then have "\<not> (uint32 = uint32 \<and> F = F \<and> Inv (cur\<lparr>r_value := v\<rparr>))"
        by (rule IH)
      with inv show False
        by simp
    qed
  qed
  have "range_for uint32 \<lparr>r_value = 4294967294, r_step = 2\<rparr> F = None"
  proof (cases "range_for uint32 \<lparr>r_value = 4294967294, r_step = 2\<rparr> F")
    case None
    then show ?thesis .
  next
    case (Some y)
    then have "\<not> (uint32 = uint32 \<and> F = F \<and> Inv \<lparr>r_value = 4294967294, r_step = 2\<rparr>)"
      by (rule never)
    then have False
      by (simp add: Inv_def)
    then show ?thesis ..
  qed
  then have u: "range_elements uint32 (xstd_range 4294967294 4294967295 2) = None"
    by (simp add: range_elements_def range_proxy_begin_def range_proxy_end_def xstd_range_def F_def)
  have s: "range_elements int32 (xstd_range 2147483646 2147483647 2) = Some (Inl SignedOverflow)"
    unfolding range_elements_def
    by (subst range_for.simps)
      (simp add: range_proxy_begin_def range_proxy_end_def xstd_range_def range_iterator_ne_def
        range_iterator_eq_def range_iterator_incr_def int_add_def arith_def representable_def
        int_min_def int_max_def int32_def)
  show ?thesis
    using u s
    by (simp add: representable_def int_min_def int_max_def uint32_def int32_def)
qed

text \<open>
  Claim C3 (range iteration law), amended by the bound on the type.  For an
  integer type and values \<open>first < last\<close> and \<open>step > 0\<close> of it such that the type
  also holds \<open>first + n * step\<close>, where \<open>n\<close> is the ceiling of \<open>(last - first) / step\<close>,
  the loop from \<open>begin()\<close> until the cursor compares equal to \<open>end()\<close> returns,
  and the values it yields are \<open>n\<close> many, the \<open>i\<close>-th (from 0) is
  \<open>first + i * step\<close>, and the last one is below \<open>last\<close>.
\<close>

theorem range_iteration_law:
  assumes "first < lst" and "0 < step"
    and "representable ty first" and "representable ty lst" and "representable ty step"
    and "representable ty (first + \<lceil>real_of_int (lst - first) / real_of_int step\<rceil> * step)"
  shows "\<exists>xs. range_elements ty (xstd_range first lst step) = Some (Inr xs)
           \<and> int (length xs) = \<lceil>real_of_int (lst - first) / real_of_int step\<rceil>
           \<and> (\<forall>i<length xs. xs ! i = first + int i * step)
           \<and> xs \<noteq> [] \<and> last xs < lst"
proof -
  define n where "n = nat \<lceil>real_of_int (lst - first) / real_of_int step\<rceil>"
  define xs where "xs = map (\<lambda>i. first + int i * step) [0..<n]"
  have pos: "0 < \<lceil>real_of_int (lst - first) / real_of_int step\<rceil>"
    using assms(1,2) by (intro ceil_quotient_pos) simp_all
  then have n: "0 < n" "int n = \<lceil>real_of_int (lst - first) / real_of_int step\<rceil>"
    by (simp_all add: n_def)
  have "representable ty (first + int n * step)"
    using assms(6) by (simp only: n(2))
  then have run: "range_elements ty (xstd_range first lst step) = Some (Inr xs)"
    unfolding xs_def n_def by (intro range_run assms(2,3))
  have len: "length xs = n"
    by (simp add: xs_def)
  have nth: "xs ! i = first + int i * step" if "i < length xs" for i
    using that by (simp add: xs_def)
  have ne: "xs \<noteq> []"
    using n(1) len by auto
  have "last xs = xs ! (n - 1)"
    using ne len by (simp add: last_conv_nth)
  also have "\<dots> = first + int (n - 1) * step"
    using n(1) len by (intro nth) simp
  also have "\<dots> < lst"
  proof -
    from n(1) have "n - 1 < n" by simp
    then have "int (n - 1) * step < lst - first"
      unfolding n_def by (rule ceil_steps_below [OF assms(2)])
    then show ?thesis by simp
  qed
  finally have "last xs < lst" .
  with run len n(2) nth ne show ?thesis
    by blast
qed

theorem range_iteration_law_witness:
  "(0::int) < 10 \<and> (0::int) < 3
   \<and> representable int32 0 \<and> representable int32 10 \<and> representable int32 3
   \<and> representable int32 (0 + \<lceil>real_of_int (10 - 0) / real_of_int 3\<rceil> * 3)
   \<and> (\<exists>xs. range_elements int32 (xstd_range 0 10 3) = Some (Inr xs)
           \<and> int (length xs) = \<lceil>real_of_int (10 - 0) / real_of_int 3\<rceil>
           \<and> (\<forall>i<length xs. xs ! i = 0 + int i * 3)
           \<and> xs \<noteq> [] \<and> last xs < 10)"
proof -
  have r: "representable int32 0" "representable int32 10" "representable int32 3"
    "representable int32 (0 + \<lceil>real_of_int (10 - 0) / real_of_int 3\<rceil> * 3)"
    by (simp_all add: representable_def int_min_def int_max_def int32_def)
  show ?thesis
    using r range_iteration_law [of 0 10 3 int32] by simp
qed

text \<open>
  What \<open>operator==\<close> of two range cursors with one nonzero step computes: with a
  positive step the left cursor has reached or passed the right one, with a
  negative step it has passed it strictly.
\<close>

lemma range_iterator_eq_iff:
  assumes "r_step a = r_step b" and "r_step a \<noteq> 0"
  shows "range_iterator_eq a b
       = Inr ((0 < r_step a \<and> r_value b \<le> r_value a) \<or> (r_step a < 0 \<and> r_value a < r_value b))"
  using assms by (auto simp add: range_iterator_eq_def)

text \<open>
  Claim C2 (range crossing equality).  The claim asks, for a negative step, that
  \<open>a == b\<close> holds when \<open>a.value \<le> b.value\<close>.  The branch of the source for a
  positive step tests \<open><\<close> or \<open>==\<close>, the branch for a negative step tests \<open><\<close>
  alone: two cursors with step \<open>-1\<close> standing at the same value do not compare
  equal.
\<close>

theorem range_iterator_eq_negative_step:
  "range_iterator_eq \<lparr>r_value = 0, r_step = - 1\<rparr> \<lparr>r_value = 0, r_step = - 1\<rparr> = Inr False"
  by (simp add: range_iterator_eq_def)

text \<open>
  As a consequence the loop over \<open>range(3, 0, -1)\<close> does not stop before \<open>last\<close>: it
  yields \<open>0\<close> as well.
\<close>

lemma range_negative_step_includes_last:
  "range_elements int32 (xstd_range 3 0 (- 1)) = Some (Inr [3, 2, 1, 0])"
proof -
  define c where "c = (\<lambda>k. \<lparr>r_value = 3 - int k, r_step = - 1\<rparr>)"
  have "range_for int32 (c 0) (range_proxy_end (xstd_range 3 0 (- 1)))
        = Some (Inr (map (\<lambda>k. range_iterator_deref (c k)) [0..<4]))"
  proof (rule range_for_steps)
    fix k :: nat assume "k < 4"
    then show "range_iterator_ne (c k) (range_proxy_end (xstd_range 3 0 (- 1))) = Inr True"
      by (simp add: range_iterator_ne_def range_iterator_eq_def range_proxy_end_def xstd_range_def c_def)
  next
    fix k :: nat assume "k < 4"
    then have "representable int32 (r_value (c k) + r_step (c k))"
      by (simp add: c_def representable_def int_min_def int_max_def int32_def)
    then have "range_iterator_incr int32 (c k) = Inr ((c k)\<lparr>r_value := r_value (c k) + r_step (c k)\<rparr>)"
      by (rule range_iterator_incr_representable)
    then show "range_iterator_incr int32 (c k) = Inr (c (Suc k))"
      by (simp add: c_def)
  next
    show "range_iterator_ne (c 4) (range_proxy_end (xstd_range 3 0 (- 1))) = Inr False"
      by (simp add: range_iterator_ne_def range_iterator_eq_def range_proxy_end_def xstd_range_def c_def)
  qed
  moreover have "c 0 = range_proxy_begin (xstd_range 3 0 (- 1))"
    by (simp add: c_def range_proxy_begin_def xstd_range_def)
  moreover have "map (\<lambda>k. range_iterator_deref (c k)) [0..<4] = [3, 2, 1, 0]"
    by (simp add: upt_rec c_def range_iterator_deref_def)
  ultimately show ?thesis
    by (simp add: range_elements_def)
qed

text \<open>Truncating division, floor and ceiling.\<close>

lemma sdiv_pos: "0 \<le> a \<Longrightarrow> 0 < b \<Longrightarrow> a sdiv b = a div (b::int)"
  by (simp add: signed_divide_int_def sgn_if)

lemma floor_ceiling_not_dvd:
  assumes "0 < step" and "\<not> step dvd d"
  shows "\<lfloor>real_of_int d / real_of_int step\<rfloor> = \<lceil>real_of_int d / real_of_int step\<rceil> - 1"
proof -
  have fl: "\<lfloor>real_of_int d / real_of_int step\<rfloor> = d div step"
    by (simp only: floor_divide_of_int_eq)
  have ce: "\<lceil>real_of_int d / real_of_int step\<rceil> = - ((- d) div step)"
    by (simp only: ceiling_divide_eq_div)
  have "d mod step \<noteq> 0"
    using assms(2) by (simp add: dvd_eq_mod_eq_0)
  then have "(- d) div step = - (d div step) - 1"
    using assms(1) by (simp add: zdiv_zminus1_eq_if)
  then show ?thesis
    by (simp only: fl ce)
qed

text \<open>
  \<open>operator-\<close> of two range cursors when the type holds the difference and the
  quotient, and \<open>std::ptrdiff_t\<close> holds the quotient.
\<close>

lemma representable_0: "representable ty 0"
  by (simp add: representable_def int_min_def int_max_def)

lemma convert_representable:
  assumes "representable ty v"
  shows "convert ty v = v"
  using assms by (simp add: convert_def)

lemma range_iterator_minus_representable:
  assumes "r_step x = r_step y" and "r_step x \<noteq> 0"
    and "representable ty (r_value x - r_value y)"
    and "representable ty ((r_value x - r_value y) sdiv r_step x)"
    and "representable ptrdiff_t ((r_value x - r_value y) sdiv r_step x)"
  shows "range_iterator_minus ty ptrdiff_t x y = Inr ((r_value x - r_value y) sdiv r_step x)"
  using assms
  by (simp add: range_iterator_minus_def int_sub_def int_div_def arith_representable
      convert_representable)

text \<open>
  Claim C10 as it is stated fails in two ways.  For the 32-bit unsigned type
  the difference \<open>0 - 7\<close> of the cursors wraps around, and \<open>x - y\<close> is
  \<open>2147483644\<close>, not the truncated quotient \<open>-3\<close>.  And where \<open>last < first\<close>: for
  \<open>range(5, 0, 2)\<close> the step \<open>2\<close> does not divide \<open>last - first = -5\<close>, and
  \<open>end() - begin()\<close> is the truncated quotient \<open>-2\<close>, not the floor \<open>-3\<close>.
\<close>

theorem range_distance_counterexample:
  "r_step \<lparr>r_value = 0, r_step = 2\<rparr> = r_step \<lparr>r_value = 7, r_step = 2\<rparr>
   \<and> r_step \<lparr>r_value = 0, r_step = 2\<rparr> \<noteq> 0
   \<and> representable uint32 0 \<and> representable uint32 7 \<and> representable uint32 2
   \<and> range_iterator_minus uint32 int64 \<lparr>r_value = 0, r_step = 2\<rparr> \<lparr>r_value = 7, r_step = 2\<rparr>
       = Inr 2147483644
   \<and> sgn (0 - 7) * sgn 2 * (\<bar>0 - 7\<bar> div \<bar>2\<bar>) = (- 3 :: int)
   \<and> range_iterator_minus uint32 int64 \<lparr>r_value = 0, r_step = 2\<rparr> \<lparr>r_value = 7, r_step = 2\<rparr>
       \<noteq> Inr (sgn (0 - 7) * sgn 2 * (\<bar>0 - 7\<bar> div \<bar>2\<bar>))
   \<and> (0::int) < 2 \<and> \<not> (2::int) dvd (0 - 5)
   \<and> representable int32 5 \<and> representable int32 0 \<and> representable int32 2
   \<and> range_iterator_minus int32 int64 (range_proxy_end (xstd_range 5 0 2))
         (range_proxy_begin (xstd_range 5 0 2))
       = Inr (- 2)
   \<and> \<lfloor>real_of_int (0 - 5) / real_of_int 2\<rfloor> = - 3
   \<and> range_iterator_minus int32 int64 (range_proxy_end (xstd_range 5 0 2))
         (range_proxy_begin (xstd_range 5 0 2))
       \<noteq> Inr \<lfloor>real_of_int (0 - 5) / real_of_int 2\<rfloor>"
proof -
  have fl: "\<lfloor>real_of_int (0 - 5) / real_of_int 2\<rfloor> = - 3"
    by (simp add: floor_divide_of_int_eq [symmetric] del: floor_divide_of_int_eq)
  have u: "range_iterator_minus uint32 int64 \<lparr>r_value = 0, r_step = 2\<rparr> \<lparr>r_value = 7, r_step = 2\<rparr>
       = Inr 2147483644"
    by (simp add: range_iterator_minus_def int_sub_def int_div_def arith_def convert_def
        representable_def int_min_def int_max_def uint32_def int64_def signed_divide_int_def)
  have s: "range_iterator_minus int32 int64 (range_proxy_end (xstd_range 5 0 2))
         (range_proxy_begin (xstd_range 5 0 2)) = Inr (- 2)"
    by (simp add: range_iterator_minus_def range_proxy_end_def range_proxy_begin_def xstd_range_def
        int_sub_def int_div_def arith_def convert_def representable_def int_min_def int_max_def
        int32_def int64_def signed_divide_int_def)
  show ?thesis
    by (simp only: fl u s)
      (simp add: representable_def int_min_def int_max_def uint32_def int32_def)
qed

text \<open>
  Claim C10 (range cursor distance truncates and can undercount iteration),
  amended by the bounds on the types and by \<open>first < last\<close> in its second part.
  For two range cursors \<open>x\<close> and \<open>y\<close> with one nonzero step \<open>s\<close>, such that the
  type holds \<open>x.value - y.value\<close> and its quotient by \<open>s\<close> truncated towards zero,
  and \<open>std::ptrdiff_t\<close> holds the quotient, \<open>x - y\<close> is that quotient.  For
  \<open>first < last\<close> and a positive step that does not divide \<open>last - first\<close>, such
  that the type holds \<open>last - first\<close> and the value the loop stops at, and
  \<open>std::ptrdiff_t\<close> holds the quotient, \<open>end() - begin()\<close> is the floor of
  \<open>(last - first) / step\<close>, which is one less than the ceiling, the number of
  elements that the loop yields.
\<close>

theorem range_distance_truncates:
  "(r_step x = r_step y \<and> r_step x \<noteq> 0
      \<and> representable ty (r_value x - r_value y)
      \<and> representable ty (sgn (r_value x - r_value y) * sgn (r_step x)
                            * (\<bar>r_value x - r_value y\<bar> div \<bar>r_step x\<bar>))
      \<and> representable ptrdiff_t (sgn (r_value x - r_value y) * sgn (r_step x)
                            * (\<bar>r_value x - r_value y\<bar> div \<bar>r_step x\<bar>)) \<longrightarrow>
      range_iterator_minus ty ptrdiff_t x y
        = Inr (sgn (r_value x - r_value y) * sgn (r_step x)
                * (\<bar>r_value x - r_value y\<bar> div \<bar>r_step x\<bar>)))
   \<and> (first < lst \<and> 0 < step \<and> \<not> step dvd (lst - first)
      \<and> representable ty first \<and> representable ty lst \<and> representable ty step
      \<and> representable ty (lst - first)
      \<and> representable ty (first + \<lceil>real_of_int (lst - first) / real_of_int step\<rceil> * step)
      \<and> representable ptrdiff_t \<lfloor>real_of_int (lst - first) / real_of_int step\<rfloor> \<longrightarrow>
      range_iterator_minus ty ptrdiff_t (range_proxy_end (xstd_range first lst step))
          (range_proxy_begin (xstd_range first lst step))
        = Inr \<lfloor>real_of_int (lst - first) / real_of_int step\<rfloor>
      \<and> \<lfloor>real_of_int (lst - first) / real_of_int step\<rfloor>
        = \<lceil>real_of_int (lst - first) / real_of_int step\<rceil> - 1
      \<and> (\<exists>xs. range_elements ty (xstd_range first lst step) = Some (Inr xs)
             \<and> int (length xs) = \<lceil>real_of_int (lst - first) / real_of_int step\<rceil>))"
proof (intro conjI impI)
  assume h: "r_step x = r_step y \<and> r_step x \<noteq> 0
      \<and> representable ty (r_value x - r_value y)
      \<and> representable ty (sgn (r_value x - r_value y) * sgn (r_step x)
                            * (\<bar>r_value x - r_value y\<bar> div \<bar>r_step x\<bar>))
      \<and> representable ptrdiff_t (sgn (r_value x - r_value y) * sgn (r_step x)
                            * (\<bar>r_value x - r_value y\<bar> div \<bar>r_step x\<bar>))"
  then have "r_step x = r_step y" and "r_step x \<noteq> 0"
    and "representable ty (r_value x - r_value y)"
    and "representable ty ((r_value x - r_value y) sdiv r_step x)"
    and "representable ptrdiff_t ((r_value x - r_value y) sdiv r_step x)"
    unfolding signed_divide_int_def by blast+
  then have "range_iterator_minus ty ptrdiff_t x y = Inr ((r_value x - r_value y) sdiv r_step x)"
    by (rule range_iterator_minus_representable)
  then show "range_iterator_minus ty ptrdiff_t x y
        = Inr (sgn (r_value x - r_value y) * sgn (r_step x)
                * (\<bar>r_value x - r_value y\<bar> div \<bar>r_step x\<bar>))"
    by (simp add: signed_divide_int_def)
next
  assume h: "first < lst \<and> 0 < step \<and> \<not> step dvd (lst - first)
      \<and> representable ty first \<and> representable ty lst \<and> representable ty step
      \<and> representable ty (lst - first)
      \<and> representable ty (first + \<lceil>real_of_int (lst - first) / real_of_int step\<rceil> * step)
      \<and> representable ptrdiff_t \<lfloor>real_of_int (lst - first) / real_of_int step\<rfloor>"
  then have "(lst - first) sdiv step = (lst - first) div step"
    by (intro sdiv_pos) simp_all
  also have "\<dots> = \<lfloor>real_of_int (lst - first) / real_of_int step\<rfloor>"
    by (simp only: floor_divide_of_int_eq)
  finally have q: "(lst - first) sdiv step = \<lfloor>real_of_int (lst - first) / real_of_int step\<rfloor>" .
  have q0: "0 \<le> (lst - first) div step" "(lst - first) div step \<le> lst - first"
  proof -
    show "0 \<le> (lst - first) div step"
      using h by (simp add: pos_imp_zdiv_nonneg_iff)
    have "(lst - first) div step \<le> (lst - first) div 1"
      using h by (intro zdiv_mono2) simp_all
    then show "(lst - first) div step \<le> lst - first"
      by simp
  qed
  from h have r: "representable ty (lst - first)"
    "representable ptrdiff_t \<lfloor>real_of_int (lst - first) / real_of_int step\<rfloor>" "step \<noteq> 0"
    by simp_all
  have "representable ty ((lst - first) div step)"
    using representable_0 [of ty] r(1) q0 by (rule representable_between)
  then have fits: "representable ty \<lfloor>real_of_int (lst - first) / real_of_int step\<rfloor>"
    by (simp only: floor_divide_of_int_eq)
  have ends: "r_value (range_proxy_end (xstd_range first lst step)) = lst"
    "r_value (range_proxy_begin (xstd_range first lst step)) = first"
    "r_step (range_proxy_end (xstd_range first lst step)) = step"
    "r_step (range_proxy_begin (xstd_range first lst step)) = step"
    by (simp_all add: range_proxy_end_def range_proxy_begin_def xstd_range_def)
  have "range_iterator_minus ty ptrdiff_t (range_proxy_end (xstd_range first lst step))
          (range_proxy_begin (xstd_range first lst step))
        = Inr ((r_value (range_proxy_end (xstd_range first lst step))
                 - r_value (range_proxy_begin (xstd_range first lst step)))
               sdiv r_step (range_proxy_end (xstd_range first lst step)))"
  proof (rule range_iterator_minus_representable)
    show "r_step (range_proxy_end (xstd_range first lst step))
        = r_step (range_proxy_begin (xstd_range first lst step))"
      by (simp only: ends)
    show "r_step (range_proxy_end (xstd_range first lst step)) \<noteq> 0"
      unfolding ends by (rule r(3))
    show "representable ty (r_value (range_proxy_end (xstd_range first lst step))
        - r_value (range_proxy_begin (xstd_range first lst step)))"
      unfolding ends by (rule r(1))
    show "representable ty ((r_value (range_proxy_end (xstd_range first lst step))
        - r_value (range_proxy_begin (xstd_range first lst step)))
        sdiv r_step (range_proxy_end (xstd_range first lst step)))"
      unfolding ends q by (rule fits)
    show "representable ptrdiff_t ((r_value (range_proxy_end (xstd_range first lst step))
        - r_value (range_proxy_begin (xstd_range first lst step)))
        sdiv r_step (range_proxy_end (xstd_range first lst step)))"
      unfolding ends q by (rule r(2))
  qed
  then show "range_iterator_minus ty ptrdiff_t (range_proxy_end (xstd_range first lst step))
          (range_proxy_begin (xstd_range first lst step))
        = Inr \<lfloor>real_of_int (lst - first) / real_of_int step\<rfloor>"
    by (simp only: ends q)
next
  assume h: "first < lst \<and> 0 < step \<and> \<not> step dvd (lst - first)
      \<and> representable ty first \<and> representable ty lst \<and> representable ty step
      \<and> representable ty (lst - first)
      \<and> representable ty (first + \<lceil>real_of_int (lst - first) / real_of_int step\<rceil> * step)
      \<and> representable ptrdiff_t \<lfloor>real_of_int (lst - first) / real_of_int step\<rfloor>"
  then show "\<lfloor>real_of_int (lst - first) / real_of_int step\<rfloor>
        = \<lceil>real_of_int (lst - first) / real_of_int step\<rceil> - 1"
    by (intro floor_ceiling_not_dvd) simp_all
next
  assume h: "first < lst \<and> 0 < step \<and> \<not> step dvd (lst - first)
      \<and> representable ty first \<and> representable ty lst \<and> representable ty step
      \<and> representable ty (lst - first)
      \<and> representable ty (first + \<lceil>real_of_int (lst - first) / real_of_int step\<rceil> * step)
      \<and> representable ptrdiff_t \<lfloor>real_of_int (lst - first) / real_of_int step\<rfloor>"
  then have pos: "0 < \<lceil>real_of_int (lst - first) / real_of_int step\<rceil>"
    by (intro ceil_quotient_pos) simp_all
  then have len: "int (length (map (\<lambda>i. first + int i * step)
                 [0..<nat \<lceil>real_of_int (lst - first) / real_of_int step\<rceil>]))
        = \<lceil>real_of_int (lst - first) / real_of_int step\<rceil>"
    by simp
  have "representable ty (first + int (nat \<lceil>real_of_int (lst - first) / real_of_int step\<rceil>) * step)"
    using h pos by simp
  then have "range_elements ty (xstd_range first lst step)
       = Some (Inr (map (\<lambda>i. first + int i * step)
                 [0..<nat \<lceil>real_of_int (lst - first) / real_of_int step\<rceil>]))"
    using h by (intro range_run) simp_all
  with len show "\<exists>xs. range_elements ty (xstd_range first lst step) = Some (Inr xs)
             \<and> int (length xs) = \<lceil>real_of_int (lst - first) / real_of_int step\<rceil>"
    by blast
qed

theorem range_distance_truncates_witness:
  "range_iterator_minus int32 int64 \<lparr>r_value = 0, r_step = 2\<rparr> \<lparr>r_value = 7, r_step = 2\<rparr> = Inr (- 3)
   \<and> range_iterator_minus int32 int64 (range_proxy_end (xstd_range 0 7 2))
        (range_proxy_begin (xstd_range 0 7 2)) = Inr 3
   \<and> \<lceil>real_of_int (7 - 0) / real_of_int 2\<rceil> = 4
   \<and> (\<exists>xs. range_elements int32 (xstd_range 0 7 2) = Some (Inr xs) \<and> int (length xs) = 4)"
proof -
  have c: "\<lceil>real_of_int (7 - 0) / real_of_int 2\<rceil> = 4"
    by (simp add: ceiling_divide_eq_div_numeral [symmetric])
  have f: "\<lfloor>real_of_int (7 - 0) / real_of_int 2\<rfloor> = 3"
    by (simp add: floor_divide_of_int_eq [symmetric] del: floor_divide_of_int_eq)
  show ?thesis
    using range_distance_truncates
      [where x = "\<lparr>r_value = 0, r_step = 2\<rparr>" and y = "\<lparr>r_value = 7, r_step = 2\<rparr>"
         and ty = int32 and ptrdiff_t = int64 and first = 0 and lst = 7 and step = 2]
    by (simp add: c f representable_def int_min_def int_max_def int32_def int64_def)
qed

subsection \<open>Strided\<close>

text \<open>The truncated quotient vanishes exactly when the dividend is shorter than the divisor.\<close>

lemma sdiv_eq_0_iff:
  fixes a b :: int
  assumes "b \<noteq> 0"
  shows "a sdiv b = 0 \<longleftrightarrow> \<bar>a\<bar> < \<bar>b\<bar>"
proof -
  have "\<bar>a\<bar> div \<bar>b\<bar> = 0 \<longleftrightarrow> \<bar>a\<bar> < \<bar>b\<bar>"
    using assms by (auto simp add: zdiv_eq_0_iff)
  moreover have "a sdiv b = 0 \<longleftrightarrow> a = 0 \<or> \<bar>a\<bar> div \<bar>b\<bar> = 0"
    using assms by (auto simp add: signed_divide_int_def sgn_if)
  ultimately show ?thesis
    using assms by auto
qed

text \<open>Two strided cursors compare equal when they stand less than one stride apart.\<close>

lemma strided_iterator_eq_iff:
  assumes "s_stride x = s_stride y" and "s_stride x \<noteq> 0"
  shows "strided_iterator_eq x y
       = Inr (\<bar>pos (s_iterator x) - pos (s_iterator y)\<bar> < \<bar>s_stride x\<bar>)"
  using assms
  by (simp add: strided_iterator_eq_def strided_iterator_minus_def cpp_div_def vec_distance_def
      sdiv_eq_0_iff)

lemma strided_iterator_ne_iff:
  assumes "s_stride x = s_stride y" and "s_stride x \<noteq> 0"
  shows "strided_iterator_ne x y
       = Inr (\<bar>s_stride x\<bar> \<le> \<bar>pos (s_iterator x) - pos (s_iterator y)\<bar>)"
  using assms
  by (simp add: strided_iterator_ne_def strided_iterator_eq_iff not_less)

text \<open>
  Claim C9 (strided cursor equality is coarse).  For two strided cursors \<open>x\<close> and
  \<open>y\<close> with one nonzero stride \<open>s\<close>, \<open>x == y\<close> holds exactly when the quotient of the
  difference of their underlying positions by \<open>s\<close>, truncated towards zero, is
  zero.  In particular, when the positions are less than \<open>\<bar>s\<bar>\<close> apart the cursors
  compare equal, and neither \<open>x < y\<close> nor \<open>y < x\<close> holds.
\<close>

theorem strided_equality_coarse:
  assumes "s_stride x = s_stride y" and "s_stride x \<noteq> 0"
  shows "strided_iterator_eq x y
           = Inr (sgn (pos (s_iterator x) - pos (s_iterator y)) * sgn (s_stride x)
                   * (\<bar>pos (s_iterator x) - pos (s_iterator y)\<bar> div \<bar>s_stride x\<bar>) = 0)
       \<and> (\<bar>pos (s_iterator x) - pos (s_iterator y)\<bar> < \<bar>s_stride x\<bar> \<longrightarrow>
            strided_iterator_eq x y = Inr True
          \<and> strided_iterator_less x y = Inr False
          \<and> strided_iterator_less y x = Inr False)"
proof (intro conjI impI)
  show "strided_iterator_eq x y
           = Inr (sgn (pos (s_iterator x) - pos (s_iterator y)) * sgn (s_stride x)
                   * (\<bar>pos (s_iterator x) - pos (s_iterator y)\<bar> div \<bar>s_stride x\<bar>) = 0)"
    using assms
    by (simp add: strided_iterator_eq_def strided_iterator_minus_def cpp_div_def vec_distance_def
        signed_divide_int_def)
next
  assume near: "\<bar>pos (s_iterator x) - pos (s_iterator y)\<bar> < \<bar>s_stride x\<bar>"
  then show "strided_iterator_eq x y = Inr True"
    using assms by (simp add: strided_iterator_eq_iff)
  from near have xy: "(pos (s_iterator y) - pos (s_iterator x)) sdiv s_stride x = 0"
    using assms(2) by (simp add: sdiv_eq_0_iff abs_minus_commute)
  from near have yx: "(pos (s_iterator x) - pos (s_iterator y)) sdiv s_stride x = 0"
    using assms(2) by (simp add: sdiv_eq_0_iff)
  show "strided_iterator_less x y = Inr False"
    using assms xy by (simp add: strided_iterator_less_def cpp_div_def vec_distance_def)
  show "strided_iterator_less y x = Inr False"
    using assms yx by (simp add: strided_iterator_less_def cpp_div_def vec_distance_def)
qed

theorem strided_equality_coarse_witness:
  "pos (s_iterator \<lparr>s_iterator = \<lparr>cont = 0, pos = 4\<rparr>, s_stride = 3\<rparr>)
     \<noteq> pos (s_iterator \<lparr>s_iterator = \<lparr>cont = 0, pos = 5\<rparr>, s_stride = 3\<rparr>)
   \<and> strided_iterator_eq \<lparr>s_iterator = \<lparr>cont = 0, pos = 4\<rparr>, s_stride = 3\<rparr>
        \<lparr>s_iterator = \<lparr>cont = 0, pos = 5\<rparr>, s_stride = 3\<rparr> = Inr True
   \<and> strided_iterator_less \<lparr>s_iterator = \<lparr>cont = 0, pos = 4\<rparr>, s_stride = 3\<rparr>
        \<lparr>s_iterator = \<lparr>cont = 0, pos = 5\<rparr>, s_stride = 3\<rparr> = Inr False
   \<and> strided_iterator_less \<lparr>s_iterator = \<lparr>cont = 0, pos = 5\<rparr>, s_stride = 3\<rparr>
        \<lparr>s_iterator = \<lparr>cont = 0, pos = 4\<rparr>, s_stride = 3\<rparr> = Inr False"
  using strided_equality_coarse
    [of "\<lparr>s_iterator = \<lparr>cont = 0, pos = 4\<rparr>, s_stride = 3\<rparr>"
        "\<lparr>s_iterator = \<lparr>cont = 0, pos = 5\<rparr>, s_stride = 3\<rparr>"]
  by simp


text \<open>Below the number of full strides there is room for one more stride.\<close>

lemma full_strides_below:
  fixes k S L :: nat
  assumes "0 < S" and "k < L div S"
  shows "k * S + S \<le> L"
proof -
  have "Suc k \<le> L div S"
    using assms(2) by simp
  then have "Suc k * S \<le> L"
    using assms(1) by (simp only: less_eq_div_iff_mult_less_eq)
  then show ?thesis
    by (simp add: add.commute)
qed

text \<open>
  Every offset the cursor of the loop over a strided view takes, the one it
  stops at included, lies within the container: \<open>std::advance\<close> never leaves it.
\<close>

lemma strided_cursor_in_container:
  fixes L :: nat
  assumes "0 < stride" and "k \<le> L div nat stride"
  shows "0 \<le> int k * stride \<and> int k * stride \<le> int L"
proof -
  have "k * nat stride \<le> (L div nat stride) * nat stride"
    using assms(2) by (rule mult_le_mono1)
  also have "\<dots> \<le> L"
    by simp
  finally have "int (k * nat stride) \<le> int L"
    by (simp only: of_nat_le_iff)
  then show ?thesis
    using assms(1) by simp
qed

text \<open>
  The loop over the strided view of a whole container with a positive stride
  runs over the multiples of the stride below the last full one.
\<close>

lemma strided_run:
  assumes "0 < stride"
    and "\<And>k. k < length (store content) div nat stride \<Longrightarrow>
           deref \<lparr>s_iterator = \<lparr>cont = content, pos = int k * stride\<rparr>, s_stride = stride\<rparr> = Inr (v k)"
  shows "strided_loop deref
           \<lparr>sp_first = vec_begin content, sp_last = vec_end store content, sp_stride = stride\<rparr>
       = Some (Inr (map v [0..<length (store content) div nat stride]))"
proof -
  define L where "L = length (store content)"
  define S where "S = nat stride"
  define n where "n = L div S"
  define c where
    "c = (\<lambda>k. \<lparr>s_iterator = \<lparr>cont = content, pos = int k * stride\<rparr>, s_stride = stride\<rparr>)"
  define fin where "fin = \<lparr>s_iterator = vec_end store content, s_stride = stride\<rparr>"
  have S: "0 < S" "int S = stride"
    using assms(1) by (simp_all add: S_def)
  have far: "stride \<le> int L - int k * stride" if "k < n" for k
  proof -
    have "k * S + S \<le> L"
      using S(1) that unfolding n_def by (rule full_strides_below)
    then have "int (k * S + S) \<le> int L"
      by (simp only: of_nat_le_iff)
    then show ?thesis
      by (simp add: S(2))
  qed
  have near: "0 \<le> int L - int n * stride" "int L - int n * stride < stride"
  proof -
    have "L = n * S + L mod S"
      by (simp add: n_def)
    then have "int L = int (n * S + L mod S)"
      by (simp only:)
    then have eq: "int L - int n * stride = int (L mod S)"
      by (simp add: S(2))
    show "0 \<le> int L - int n * stride"
      by (simp only: eq of_nat_0_le_iff)
    have "L mod S < S"
      using S(1) by simp
    then have "int (L mod S) < int S"
      by (simp only: of_nat_less_iff)
    then show "int L - int n * stride < stride"
      by (simp only: eq S(2))
  qed
  have "traverse strided_iterator_ne strided_iterator_incr deref (c 0) fin
      = Some (Inr (map v [0..<n]))"
  proof (rule traverse_steps)
    fix k assume "k < n"
    then show "strided_iterator_ne (c k) fin = Inr True"
      using far [of k] assms(1)
      by (simp add: strided_iterator_ne_iff c_def fin_def vec_end_def L_def)
  next
    fix k assume "k < n"
    then show "deref (c k) = Inr (v k)"
      unfolding c_def n_def L_def S_def by (rule assms(2))
  next
    fix k show "strided_iterator_incr (c k) = c (Suc k)"
      by (simp add: strided_iterator_incr_def vec_advance_def c_def algebra_simps)
  next
    show "strided_iterator_ne (c n) fin = Inr False"
      using near assms(1)
      by (simp add: strided_iterator_ne_iff c_def fin_def vec_end_def L_def)
  qed
  moreover have "strided_proxy_begin
      \<lparr>sp_first = vec_begin content, sp_last = vec_end store content, sp_stride = stride\<rparr> = Inr (c 0)"
    using assms(1) by (simp add: strided_proxy_begin_def strided_iterator_new_def c_def vec_begin_def)
  moreover have "strided_proxy_end
      \<lparr>sp_first = vec_begin content, sp_last = vec_end store content, sp_stride = stride\<rparr> = Inr fin"
    using assms(1) by (simp add: strided_proxy_end_def strided_iterator_new_def fin_def)
  ultimately show ?thesis
    by (simp add: strided_loop_def n_def L_def S_def)
qed

lemma strided_deref_in_bounds:
  assumes "0 < stride" and "k < length (store content) div nat stride"
  shows "strided_iterator_deref store
           \<lparr>s_iterator = \<lparr>cont = content, pos = int k * stride\<rparr>, s_stride = stride\<rparr>
       = Inr (store content ! (k * nat stride))"
proof -
  have "k * nat stride + nat stride \<le> length (store content)"
    using assms by (intro full_strides_below) simp_all
  moreover have "0 < nat stride"
    using assms(1) by simp
  ultimately have "k * nat stride < length (store content)"
    by linarith
  then have "int (k * nat stride) < int (length (store content))"
    by (simp only: of_nat_less_iff)
  moreover have "int (k * nat stride) = int k * stride"
    using assms(1) by simp
  moreover have "nat (int k * stride) = k * nat stride"
    using assms(1) by (simp add: nat_mult_distrib)
  ultimately show ?thesis
    using assms(1) by (simp add: strided_iterator_deref_def vec_deref_def)
qed

text \<open>
  Claim C4 (strided size law).  For a container of length \<open>L\<close> and a stride
  \<open>> 0\<close>, \<open>strided(seq, stride).size()\<close> is \<open>L / stride\<close> (truncating division), the
  loop from \<open>begin()\<close> to \<open>end()\<close> returns and yields that many elements, the
  \<open>i\<close>-th (from 0) being \<open>seq[i * stride]\<close>, and the cursor only ever stands at the
  offsets \<open>i * stride\<close> for \<open>i < L / stride\<close>: the elements after the last full
  stride are not visited.
\<close>

theorem strided_size_law:
  assumes "0 < stride"
  shows "\<exists>p xs. strided_container store content stride = Inr p
           \<and> strided_proxy_size p = Inr (int (length (store content) div nat stride))
           \<and> strided_elements store p = Some (Inr xs)
           \<and> length xs = length (store content) div nat stride
           \<and> (\<forall>i<length xs. xs ! i = store content ! (i * nat stride))
           \<and> strided_positions p
               = Some (Inr (map (\<lambda>i. int i * stride) [0..<length (store content) div nat stride]))"
proof -
  define p where
    "p = \<lparr>sp_first = vec_begin content, sp_last = vec_end store content, sp_stride = stride\<rparr>"
  define xs where
    "xs = map (\<lambda>i. store content ! (i * nat stride)) [0..<length (store content) div nat stride]"
  have view: "strided_container store content stride = Inr p"
    using assms by (simp add: strided_container_def strided_def p_def)
  have "int (length (store content)) sdiv stride = int (length (store content)) div stride"
    using assms by (intro sdiv_pos) simp_all
  also have "\<dots> = int (length (store content) div nat stride)"
    using assms by (simp add: zdiv_int)
  finally have size: "strided_proxy_size p = Inr (int (length (store content) div nat stride))"
    using assms
    by (simp add: strided_proxy_size_def p_def cpp_div_def vec_distance_def vec_begin_def vec_end_def)
  have elems: "strided_elements store p = Some (Inr xs)"
    unfolding strided_elements_def p_def xs_def
    using assms by (intro strided_run strided_deref_in_bounds)
  have poss: "strided_positions p
      = Some (Inr (map (\<lambda>i. int i * stride) [0..<length (store content) div nat stride]))"
    unfolding strided_positions_def p_def
    using assms by (intro strided_run) simp_all
  have len: "length xs = length (store content) div nat stride"
    by (simp add: xs_def)
  have nth: "\<forall>i<length xs. xs ! i = store content ! (i * nat stride)"
    by (simp add: xs_def)
  from view size elems len nth poss show ?thesis
    by blast
qed

theorem strided_size_law_witness:
  "(0::int) < 2 \<and>
   (\<exists>p xs. strided_container (\<lambda>c. [1, 2, 3, 4, 5, 6, 7 :: int]) 0 2 = Inr p
           \<and> strided_proxy_size p = Inr 3
           \<and> strided_elements (\<lambda>c. [1, 2, 3, 4, 5, 6, 7 :: int]) p = Some (Inr xs)
           \<and> length xs = 3
           \<and> (\<forall>i<length xs. xs ! i = [1, 2, 3, 4, 5, 6, 7 :: int] ! (i * 2))
           \<and> strided_positions p = Some (Inr [0, 2, 4]))"
proof -
  have "map (\<lambda>i. int i * 2) [0..<3] = [0, 2, 4]"
    by (simp add: upt_rec)
  then show ?thesis
    using strided_size_law [of 2 "\<lambda>c. [1, 2, 3, 4, 5, 6, 7 :: int]" 0]
    by (simp add: numeral_3_eq_3)
qed

subsection \<open>Tuple algorithms\<close>

text \<open>
  The one-tuple \<open>transform\<close> maps the function over the tuple.  The two-tuple
  \<open>transform\<close> does so for tuples of one length and is rejected otherwise.
\<close>

lemma transform_map: "transform inputs function = map function inputs"
  unfolding transform_def transform_impl_def
  by (rule nth_equalityI) simp_all

lemma transform2_same_length:
  assumes "length t1 = length t2"
  shows "transform2 t1 t2 function = Inr (map (\<lambda>i. function (t1 ! i) (t2 ! i)) [0..<length t1])"
  using assms by (simp add: transform2_def transform_impl2_def list_all_iff)

lemma transform2_mismatch:
  assumes "length t1 \<noteq> length t2"
  shows "transform2 t1 t2 function = Inl IllFormed"
  using assms by (simp add: transform2_def transform_impl2_def)

text \<open>The quantifiers, first over one tuple, then over two tuples of one length.\<close>

lemma any_of_iff: "any_of t p \<longleftrightarrow> (\<exists>v\<in>set t. p v)"
  by (induction t) simp_all

lemma all_of_iff: "all_of t p \<longleftrightarrow> (\<forall>v\<in>set t. p v)"
  by (induction t) simp_all

lemma any_of2_same_length:
  assumes "length t1 = length t2"
  shows "any_of2 t1 t2 p = Inr (\<exists>i<length t1. p (t1 ! i) (t2 ! i))"
  using assms by (auto simp add: any_of2_def transform2_same_length any_of_iff)

lemma all_of2_same_length:
  assumes "length t1 = length t2"
  shows "all_of2 t1 t2 p = Inr (\<forall>i<length t1. p (t1 ! i) (t2 ! i))"
  using assms by (auto simp add: all_of2_def transform2_same_length all_of_iff)

text \<open>The scan of \<open>std::min\<close> returns the minimum.\<close>

lemma fold_smallest: 
  "fold (\<lambda>v smallest. if v < smallest then v else smallest) xs (x::int) = Min (insert x (set xs))"
proof (induction xs arbitrary: x)
  case Nil
  then show ?case by simp
next
  case (Cons a xs)
  have "(if a < x then a else x) = min a x" by (simp add: min_def)
  then have "fold (\<lambda>v smallest. if v < smallest then v else smallest) (a # xs) x
      = Min (insert (min a x) (set xs))"
    by (simp add: Cons.IH)
  also have "\<dots> = Min (insert x (set (a # xs)))"
  proof (cases "set xs = {}")
    case True
    then show ?thesis by (simp add: min.commute)
  next
    case False
    then show ?thesis
      by (simp add: Min_insert min.assoc min.commute)
  qed
  finally show ?case .
qed

lemma xstd_min_Min:
  assumes "t \<noteq> []"
  shows "xstd_min t = Inr (Min (set t))"
  using assms by (cases t) (simp_all add: xstd_min_def fold_smallest)

text \<open>
  Claim C7 (two-tuple transform truncates to the shorter tuple).  The header
  comment of the tuple algorithms promises a result of the shortest length and
  the two-tuple \<open>for_each\<close> takes \<open>std::min\<close> of the sizes, but the two-tuple
  \<open>transform\<close> runs over \<open>sizeof...(Ts1)\<close> indices and expands both packs together:
  with tuples of sizes 3 and 2, in either order, the call is rejected instead
  of yielding the two sums.
\<close>

theorem transform2_rejects_unequal_lengths:
  "transform2 [1, 2, 3 :: int] [10, 20 :: int] (\<lambda>a b. a + b) = Inl IllFormed
   \<and> transform2 [1, 2 :: int] [10, 20, 30 :: int] (\<lambda>a b. a + b) = Inl IllFormed"
  by (simp add: transform2_def transform_impl2_def)

subsection \<open>Zip\<close>

text \<open>
  Claim C5 (zip distance is the minimum component distance).  For two zip
  cursors \<open>x\<close> and \<open>y\<close> over the same component iterator types, that is with
  equally many components and at least one, \<open>x - y\<close> is the minimum over the
  components \<open>i\<close> of the \<open>i\<close>-th iterator of \<open>x\<close> minus the \<open>i\<close>-th iterator of \<open>y\<close>.
\<close>

theorem zip_distance_is_minimum:
  assumes "length (z_iterators x) = length (z_iterators y)" and "z_iterators x \<noteq> []"
  shows "zip_iterator_minus diff x y
       = Inr (Min ((\<lambda>i. diff (z_iterators x ! i) (z_iterators y ! i)) ` {..<length (z_iterators x)}))"
proof -
  have "map (\<lambda>i. diff (z_iterators x ! i) (z_iterators y ! i)) [0..<length (z_iterators x)] \<noteq> []"
    using assms(2) by simp
  then have "xstd_min (map (\<lambda>i. diff (z_iterators x ! i) (z_iterators y ! i)) [0..<length (z_iterators x)])
      = Inr (Min (set (map (\<lambda>i. diff (z_iterators x ! i) (z_iterators y ! i)) [0..<length (z_iterators x)])))"
    by (rule xstd_min_Min)
  then show ?thesis
    using assms(1) by (simp add: zip_iterator_minus_def transform2_same_length atLeast0LessThan)
qed

theorem zip_distance_is_minimum_witness:
  "zip_iterator_minus vec_minus
     \<lparr>z_iterators = [\<lparr>cont = 0, pos = 5\<rparr>, \<lparr>cont = 1, pos = 3\<rparr>]\<rparr>
     \<lparr>z_iterators = [\<lparr>cont = 0, pos = 0\<rparr>, \<lparr>cont = 1, pos = 1\<rparr>]\<rparr> = Inr 2"
  using zip_distance_is_minimum [of "\<lparr>z_iterators = [\<lparr>cont = 0, pos = 5\<rparr>, \<lparr>cont = 1, pos = 3\<rparr>]\<rparr>"
      "\<lparr>z_iterators = [\<lparr>cont = 0, pos = 0\<rparr>, \<lparr>cont = 1, pos = 1\<rparr>]\<rparr>" vec_minus]
  by (simp add: vec_minus_def lessThan_Suc numeral_2_eq_2)

text \<open>
  Claim C6 (zip ordering is universal over components).  For two zip cursors
  \<open>x\<close> and \<open>y\<close> over the same component iterator types, \<open>x < y\<close> holds exactly when
  every pair of corresponding component iterators \<open>a\<close>, \<open>b\<close> satisfies \<open>a < b\<close>.
\<close>

theorem zip_ordering_universal:
  assumes "length (z_iterators x) = length (z_iterators y)"
  shows "zip_iterator_less lt x y
       = Inr (\<forall>i<length (z_iterators x). lt (z_iterators x ! i) (z_iterators y ! i))"
  using assms by (simp add: zip_iterator_less_def all_of2_same_length)

theorem zip_ordering_universal_witness:
  "zip_iterator_less vec_less
     \<lparr>z_iterators = [\<lparr>cont = 0, pos = 0\<rparr>, \<lparr>cont = 1, pos = 3\<rparr>]\<rparr>
     \<lparr>z_iterators = [\<lparr>cont = 0, pos = 5\<rparr>, \<lparr>cont = 1, pos = 3\<rparr>]\<rparr> = Inr False
   \<and> zip_iterator_less vec_less
     \<lparr>z_iterators = [\<lparr>cont = 0, pos = 0\<rparr>, \<lparr>cont = 1, pos = 2\<rparr>]\<rparr>
     \<lparr>z_iterators = [\<lparr>cont = 0, pos = 5\<rparr>, \<lparr>cont = 1, pos = 3\<rparr>]\<rparr> = Inr True"
  using zip_ordering_universal [of "\<lparr>z_iterators = [\<lparr>cont = 0, pos = 0\<rparr>, \<lparr>cont = 1, pos = 3\<rparr>]\<rparr>"
      "\<lparr>z_iterators = [\<lparr>cont = 0, pos = 5\<rparr>, \<lparr>cont = 1, pos = 3\<rparr>]\<rparr>" vec_less]
    zip_ordering_universal [of "\<lparr>z_iterators = [\<lparr>cont = 0, pos = 0\<rparr>, \<lparr>cont = 1, pos = 2\<rparr>]\<rparr>"
      "\<lparr>z_iterators = [\<lparr>cont = 0, pos = 5\<rparr>, \<lparr>cont = 1, pos = 3\<rparr>]\<rparr>" vec_less]
  by (simp add: vec_less_def less_Suc_eq numeral_2_eq_2)

subsection \<open>for_each and perform\<close>

text \<open>A functor without state that replaces each element maps over the tuple.\<close>

lemma for_each_pure:
  "for_each t (\<lambda>x u. (f x, u)) s = (map f t, s)"
  by (induction t) simp_all

text \<open>
  The functor of \<open>perform\<close>, started with \<open>current_index = j\<close>: the action runs on
  the element at distance \<open>index - j\<close> if there is one, and on none otherwise.
\<close>

lemma for_each_index:
  "for_each t
     (\<lambda>value (current_index, s).
        case (if index = current_index then action value s else (value, s)) of
          (value', s') \<Rightarrow> (value', (Suc current_index, s')))
     (j, s)
   = (if j \<le> index \<and> index < j + length t
      then (t[index - j := fst (action (t ! (index - j)) s)],
            (j + length t, snd (action (t ! (index - j)) s)))
      else (t, (j + length t, s)))"
proof (induction t arbitrary: j s)
  case Nil
  then show ?case by auto
next
  case (Cons x xs)
  show ?case
  proof (cases "j = index")
    case True
    then show ?thesis
      by (simp add: Cons.IH split: prod.splits)
  next
    case False
    then have "j \<le> index \<longleftrightarrow> Suc j \<le> index"
      by auto
    moreover have "index - j = Suc (index - Suc j)" if "Suc j \<le> index"
      using that by simp
    ultimately show ?thesis
      using False by (auto simp add: Cons.IH)
  qed
qed

lemma perform_eq:
  "perform t index action s
   = (if index < length t
      then (t[index := fst (action (t ! index) s)], snd (action (t ! index) s))
      else (t, s))"
  by (simp add: perform_def for_each_index)

text \<open>
  Claim C8 (perform invokes exactly once in bounds and is a silent no-op out of
  bounds).  For a tuple \<open>t\<close> of size \<open>N\<close>, an index \<open>k\<close> and an action recording its
  calls: when \<open>k < N\<close> the action is called exactly once, on the element at
  position \<open>k\<close>, and the tuple and the state are what this one call leaves; when
  \<open>k \<ge> N\<close> the action is not called, and the tuple and the state are unchanged.
\<close>

theorem perform_once_or_never:
  "(k < length t \<longrightarrow>
      perform t k (logged action) ([], s)
        = (t[k := fst (action (t ! k) s)], ([t ! k], snd (action (t ! k) s))))
   \<and> (length t \<le> k \<longrightarrow> perform t k (logged action) ([], s) = (t, ([], s)))"
  by (simp add: perform_eq logged_def split: prod.splits)

theorem perform_once_or_never_witness:
  "perform [10, 20, 30 :: int] 1 (logged (\<lambda>v n. (v + 1, Suc n))) ([], 0 :: nat)
     = ([10, 21, 30], ([20], 1))
   \<and> perform [10, 20, 30 :: int] 3 (logged (\<lambda>v n. (v + 1, Suc n))) ([], 0 :: nat)
     = ([10, 20, 30], ([], 0))"
  using perform_once_or_never [of 1 "[10, 20, 30 :: int]" "\<lambda>v n. (v + 1, Suc n)" "0 :: nat"]
    perform_once_or_never [of 3 "[10, 20, 30 :: int]" "\<lambda>v n. (v + 1, Suc n)" "0 :: nat"]
  by simp

subsection \<open>The loop over a zip view\<close>

lemma collect_all_Inr:
  assumes "\<And>x. x \<in> set xs \<Longrightarrow> f x = Inr (g x)"
  shows "collect (map f xs) = Inr (map g xs)"
  using assms by (induction xs) simp_all

lemma zip_iterator_incr_map: "zip_iterator_incr incr x = \<lparr>z_iterators = map incr (z_iterators x)\<rparr>"
  by (simp add: zip_iterator_incr_def for_each_pure)

lemma zip_iterator_ne_same_length:
  assumes "length (z_iterators x) = length (z_iterators y)"
  shows "zip_iterator_ne eq x y
       = Inr (\<forall>i<length (z_iterators x). \<not> eq (z_iterators x ! i) (z_iterators y ! i))"
  using assms by (simp add: zip_iterator_ne_def zip_iterator_eq_def any_of2_same_length)

text \<open>
  The loop over \<open>zip(args...)\<close> runs over the offsets below the length of the
  shortest container: at that offset one component equals its end iterator.
\<close>

lemma zip_run:
  assumes "args \<noteq> []"
    and "\<And>k a. k < Min ((\<lambda>a. length (store a)) ` set args) \<Longrightarrow> a \<in> set args \<Longrightarrow>
           deref \<lparr>cont = a, pos = int k\<rparr> = Inr (v a k)"
  shows "zip_loop deref (xstd_zip store args)
       = Some (Inr (map (\<lambda>k. map (\<lambda>a. v a k) args) [0..<Min ((\<lambda>a. length (store a)) ` set args)]))"
proof -
  define n where "n = Min ((\<lambda>a. length (store a)) ` set args)"
  define c where "c = (\<lambda>k. \<lparr>z_iterators = map (\<lambda>a. \<lparr>cont = a, pos = int k\<rparr>) args\<rparr>)"
  define fin where "fin = \<lparr>z_iterators = map (vec_end store) args\<rparr>"
  have fin_set: "finite ((\<lambda>a. length (store a)) ` set args)" "(\<lambda>a. length (store a)) ` set args \<noteq> {}"
    using assms(1) by simp_all
  have shortest: "n \<le> length (store a)" if "a \<in> set args" for a
    unfolding n_def using that by (intro Min_le) simp_all
  obtain a0 where a0: "a0 \<in> set args" "length (store a0) = n"
    using Min_in [OF fin_set] unfolding n_def by auto
  have ne: "zip_iterator_ne vec_eq (c k) fin = Inr (\<forall>a\<in>set args. k \<noteq> length (store a))" for k
  proof -
    have "zip_iterator_ne vec_eq (c k) fin
        = Inr (\<forall>i<length args. k \<noteq> length (store (args ! i)))"
      by (simp add: zip_iterator_ne_same_length c_def fin_def vec_eq_def vec_end_def)
    also have "(\<forall>i<length args. k \<noteq> length (store (args ! i))) \<longleftrightarrow> (\<forall>a\<in>set args. k \<noteq> length (store a))"
      by (simp add: all_set_conv_all_nth)
    finally show ?thesis .
  qed
  have "traverse (zip_iterator_ne vec_eq) (zip_iterator_incr vec_incr) (zip_iterator_deref deref)
          (c 0) fin
      = Some (Inr (map (\<lambda>k. map (\<lambda>a. v a k) args) [0..<n]))"
  proof (rule traverse_steps)
    fix k assume "k < n"
    then have "\<forall>a\<in>set args. k \<noteq> length (store a)"
      using shortest by fastforce
    then show "zip_iterator_ne vec_eq (c k) fin = Inr True"
      by (simp add: ne)
  next
    fix k assume "k < n"
    then have "collect (map (\<lambda>a. deref \<lparr>cont = a, pos = int k\<rparr>) args) = Inr (map (\<lambda>a. v a k) args)"
      unfolding n_def by (intro collect_all_Inr assms(2))
    then show "zip_iterator_deref deref (c k) = Inr (map (\<lambda>a. v a k) args)"
      by (simp add: zip_iterator_deref_def transform_map c_def comp_def)
  next
    fix k show "zip_iterator_incr vec_incr (c k) = c (Suc k)"
      by (simp add: zip_iterator_incr_map c_def vec_incr_def vec_advance_def comp_def)
  next
    show "zip_iterator_ne vec_eq (c n) fin = Inr False"
      using a0 by (auto simp add: ne)
  qed
  moreover have "zip_proxy_begin (xstd_zip store args) = c 0"
    by (simp add: zip_proxy_begin_def xstd_zip_def c_def vec_begin_def)
  moreover have "zip_proxy_end (xstd_zip store args) = fin"
    by (simp add: zip_proxy_end_def xstd_zip_def fin_def)
  ultimately show ?thesis
    by (simp add: zip_loop_def n_def)
qed

lemma zip_elements_shortest:
  assumes "args \<noteq> []"
  shows "zip_elements store (xstd_zip store args)
       = Some (Inr (map (\<lambda>k. map (\<lambda>a. store a ! k) args) [0..<Min ((\<lambda>a. length (store a)) ` set args)]))"
  unfolding zip_elements_def
proof (rule zip_run [OF assms])
  fix k a
  assume "k < Min ((\<lambda>a. length (store a)) ` set args)" and "a \<in> set args"
  then have "k < length (store a)"
    by (simp add: Min_gr_iff assms)
  then show "vec_deref store \<lparr>cont = a, pos = int k\<rparr> = Inr (store a ! k)"
    by (simp add: vec_deref_def)
qed

lemma zip_positions_shortest:
  assumes "args \<noteq> []"
  shows "zip_positions (xstd_zip store args)
       = Some (Inr (map (\<lambda>k. map (\<lambda>a. int k) args) [0..<Min ((\<lambda>a. length (store a)) ` set args)]))"
  unfolding zip_positions_def
  by (rule zip_run [OF assms]) simp

text \<open>
  Claim C1 (zip shortest-wins termination).  Two zip cursors over the same
  component iterator types compare equal exactly when at least one pair of
  corresponding component iterators compares equal.  Consequently, for
  containers \<open>A\<close> and \<open>B\<close> of lengths 5 and 3, the loop over \<open>zip(A, B)\<close> from
  \<open>begin()\<close> to \<open>end()\<close> returns and yields exactly the 3 tuples
  \<open>(A[i], B[i])\<close> for \<open>i = 0, 1, 2\<close>; its cursor stands at the offsets 0, 1, 2
  only, so the 4th and 5th element of \<open>A\<close> are not visited.
\<close>

theorem zip_shortest_wins:
  "(length (z_iterators x) = length (z_iterators y) \<longrightarrow>
      zip_iterator_eq eq x y
        = Inr (\<exists>i<length (z_iterators x). eq (z_iterators x ! i) (z_iterators y ! i)))
   \<and> (length (store a) = 5 \<and> length (store b) = 3 \<longrightarrow>
        zip_elements store (xstd_zip store [a, b])
          = Some (Inr [[store a ! 0, store b ! 0], [store a ! 1, store b ! 1],
                       [store a ! 2, store b ! 2]])
      \<and> zip_positions (xstd_zip store [a, b]) = Some (Inr [[0, 0], [1, 1], [2, 2]]))"
proof (intro conjI impI)
  assume "length (z_iterators x) = length (z_iterators y)"
  then show "zip_iterator_eq eq x y
        = Inr (\<exists>i<length (z_iterators x). eq (z_iterators x ! i) (z_iterators y ! i))"
    by (simp add: zip_iterator_eq_def any_of2_same_length)
next
  assume h: "length (store a) = 5 \<and> length (store b) = 3"
  then have m: "Min ((\<lambda>a. length (store a)) ` set [a, b]) = 3"
    by simp
  have u: "[0..<3] = [0, 1, 2]"
    by (simp add: upt_rec)
  show "zip_elements store (xstd_zip store [a, b])
          = Some (Inr [[store a ! 0, store b ! 0], [store a ! 1, store b ! 1],
                       [store a ! 2, store b ! 2]])"
    by (simp add: zip_elements_shortest m u del: set_simps)
  show "zip_positions (xstd_zip store [a, b]) = Some (Inr [[0, 0], [1, 1], [2, 2]])"
    by (simp add: zip_positions_shortest m u  del: set_simps)
qed

theorem zip_shortest_wins_witness:
  "zip_iterator_eq vec_eq
     \<lparr>z_iterators = [\<lparr>cont = 0, pos = 3\<rparr>, \<lparr>cont = 1, pos = 3\<rparr>]\<rparr>
     \<lparr>z_iterators = [\<lparr>cont = 0, pos = 5\<rparr>, \<lparr>cont = 1, pos = 3\<rparr>]\<rparr> = Inr True
   \<and> zip_elements (\<lambda>c. if c = 0 then [1, 2, 3, 4, 5] else [10, 20, 30 :: int]) 
        (xstd_zip (\<lambda>c. if c = 0 then [1, 2, 3, 4, 5] else [10, 20, 30 :: int]) [0, 1])
       = Some (Inr [[1, 10], [2, 20], [3, 30]])
   \<and> zip_positions (xstd_zip (\<lambda>c. if c = 0 then [1, 2, 3, 4, 5] else [10, 20, 30 :: int]) [0, 1])
       = Some (Inr [[0, 0], [1, 1], [2, 2]])"
  using zip_shortest_wins
    [where x = "\<lparr>z_iterators = [\<lparr>cont = 0, pos = 3\<rparr>, \<lparr>cont = 1, pos = 3\<rparr>]\<rparr>"
       and y = "\<lparr>z_iterators = [\<lparr>cont = 0, pos = 5\<rparr>, \<lparr>cont = 1, pos = 3\<rparr>]\<rparr>"
       and eq = vec_eq and a = 0 and b = 1
       and store = "\<lambda>c. if c = 0 then [1, 2, 3, 4, 5] else [10, 20, 30 :: int]"]
  by (simp add: vec_eq_def less_Suc_eq numeral_2_eq_2 conj_disj_distribR ex_disj_distrib)

end
